theory Spec2Isabelle
  imports Main
begin

section \<open>The engine interface\<close>

text \<open>
  The wrapper is a header over the C interface of the embedded engine. The engine is not
  part of the repository: its handles are opaque numbers, a null pointer is \<open>None\<close>, and
  every answer the engine gives (the return code of an open, a prepare or a step, the row a
  step makes current) is read from a script held in the engine state, one answer per call.
  A script that has run out answers with a failure code. The calls that change the engine
  are logged in the order they are made; an open and a prepare are logged with what they
  answered.
\<close>

type_synonym sqlite3 = nat
type_synonym sqlite3_stmt = nat
type_synonym db_ptr = "sqlite3 option"
type_synonym stmt_ptr = "sqlite3_stmt option"

abbreviation (input) SQLITE_OK :: int where "SQLITE_OK \<equiv> 0"
abbreviation (input) SQLITE_ERROR :: int where "SQLITE_ERROR \<equiv> 1"
abbreviation (input) SQLITE_CANTOPEN :: int where "SQLITE_CANTOPEN \<equiv> 14"
abbreviation (input) SQLITE_MISUSE :: int where "SQLITE_MISUSE \<equiv> 21"
abbreviation (input) SQLITE_ROW :: int where "SQLITE_ROW \<equiv> 100"
abbreviation (input) SQLITE_DONE :: int where "SQLITE_DONE \<equiv> 101"
abbreviation (input) SQLITE_NULL :: int where "SQLITE_NULL \<equiv> 5"
abbreviation (input) SQLITE_PREPARE_PERSISTENT :: nat where "SQLITE_PREPARE_PERSISTENT \<equiv> 1"

text \<open>What the column accessors answer for one column of the current row.\<close>

record cell =
  cell_type :: int
  cell_int64 :: int
  cell_text :: string

datatype call =
    Config_Multithread
  | Config_Log
  | Open string int db_ptr
  | Busy_Handler db_ptr
  | Post_Connection_Hook db_ptr
  | Prepare db_ptr string nat nat int stmt_ptr
  | Bind_Int64 stmt_ptr nat int
  | Bind_Text stmt_ptr nat string
  | Bind_Blob stmt_ptr nat string
  | Bind_Null stmt_ptr nat
  | Step stmt_ptr
  | Clear_Bindings stmt_ptr
  | Reset stmt_ptr
  | Finalize stmt_ptr

record engine =
  calls :: "call list"
  open_results :: "(int \<times> db_ptr) list"
  prepare_results :: "(int \<times> stmt_ptr \<times> nat) list"
  step_results :: "(int \<times> cell list) list"
  column_counts :: "stmt_ptr \<Rightarrow> nat"
  current_row :: "stmt_ptr \<Rightarrow> cell list"

definition log_call :: "call \<Rightarrow> engine \<Rightarrow> engine" where
  "log_call c e = e\<lparr>calls := calls e @ [c]\<rparr>"

definition sqlite3_config_multithread :: "engine \<Rightarrow> engine" where
  "sqlite3_config_multithread e = log_call Config_Multithread e"

definition sqlite3_config_log :: "engine \<Rightarrow> engine" where
  "sqlite3_config_log e = log_call Config_Log e"

definition sqlite3_open :: "string \<Rightarrow> engine \<Rightarrow> int \<times> db_ptr \<times> engine" where
  "sqlite3_open filename e =
     (case open_results e of
        [] \<Rightarrow> (SQLITE_CANTOPEN, None, log_call (Open filename SQLITE_CANTOPEN None) e)
      | (rc, db) # rest \<Rightarrow>
          (rc, db, log_call (Open filename rc db) (e\<lparr>open_results := rest\<rparr>)))"

definition sqlite3_busy_handler :: "db_ptr \<Rightarrow> engine \<Rightarrow> engine" where
  "sqlite3_busy_handler db e = log_call (Busy_Handler db) e"

definition sqlite3_prepare_v3 ::
  "db_ptr \<Rightarrow> string \<Rightarrow> nat \<Rightarrow> nat \<Rightarrow> engine \<Rightarrow> int \<times> stmt_ptr \<times> engine" where
  "sqlite3_prepare_v3 db zSql nByte prepFlags e =
     (case prepare_results e of
        [] \<Rightarrow> (SQLITE_ERROR, None, log_call (Prepare db zSql nByte prepFlags SQLITE_ERROR None) e)
      | (rc, st, ncols) # rest \<Rightarrow>
          (rc, st, log_call (Prepare db zSql nByte prepFlags rc st)
                     (e\<lparr>prepare_results := rest,
                        column_counts := (column_counts e)(st := ncols)\<rparr>)))"

definition sqlite3_bind_int64 :: "stmt_ptr \<Rightarrow> nat \<Rightarrow> int \<Rightarrow> engine \<Rightarrow> engine" where
  "sqlite3_bind_int64 st idx v e = log_call (Bind_Int64 st idx v) e"

definition sqlite3_bind_text :: "stmt_ptr \<Rightarrow> nat \<Rightarrow> string \<Rightarrow> engine \<Rightarrow> engine" where
  "sqlite3_bind_text st idx bytes e = log_call (Bind_Text st idx bytes) e"

definition sqlite3_bind_blob :: "stmt_ptr \<Rightarrow> nat \<Rightarrow> string \<Rightarrow> engine \<Rightarrow> engine" where
  "sqlite3_bind_blob st idx bytes e = log_call (Bind_Blob st idx bytes) e"

definition sqlite3_bind_null :: "stmt_ptr \<Rightarrow> nat \<Rightarrow> engine \<Rightarrow> engine" where
  "sqlite3_bind_null st idx e = log_call (Bind_Null st idx) e"

definition sqlite3_step :: "stmt_ptr \<Rightarrow> engine \<Rightarrow> int \<times> engine" where
  "sqlite3_step st e =
     (case step_results e of
        [] \<Rightarrow> (SQLITE_MISUSE, log_call (Step st) e)
      | (rc, row) # rest \<Rightarrow>
          (rc, log_call (Step st)
                 (e\<lparr>step_results := rest, current_row := (current_row e)(st := row)\<rparr>)))"

definition sqlite3_clear_bindings :: "stmt_ptr \<Rightarrow> engine \<Rightarrow> engine" where
  "sqlite3_clear_bindings st e = log_call (Clear_Bindings st) e"

definition sqlite3_reset :: "stmt_ptr \<Rightarrow> engine \<Rightarrow> engine" where
  "sqlite3_reset st e = log_call (Reset st) (e\<lparr>current_row := (current_row e)(st := [])\<rparr>)"

definition sqlite3_finalize :: "stmt_ptr \<Rightarrow> engine \<Rightarrow> engine" where
  "sqlite3_finalize st e = log_call (Finalize st) (e\<lparr>current_row := (current_row e)(st := [])\<rparr>)"

definition sqlite3_column_count :: "engine \<Rightarrow> stmt_ptr \<Rightarrow> nat" where
  "sqlite3_column_count e st = (if st = None then 0 else column_counts e st)"

definition sqlite3_column_type :: "engine \<Rightarrow> stmt_ptr \<Rightarrow> nat \<Rightarrow> int" where
  "sqlite3_column_type e st idx =
     (if idx < length (current_row e st) then cell_type (current_row e st ! idx)
      else SQLITE_NULL)"

definition sqlite3_column_int64 :: "engine \<Rightarrow> stmt_ptr \<Rightarrow> nat \<Rightarrow> int" where
  "sqlite3_column_int64 e st idx =
     (if idx < length (current_row e st) then cell_int64 (current_row e st ! idx) else 0)"

text \<open>The bytes at \<open>sqlite3_column_text\<close>, \<open>sqlite3_column_bytes\<close> of them.\<close>

definition sqlite3_column_text :: "engine \<Rightarrow> stmt_ptr \<Rightarrow> nat \<Rightarrow> string" where
  "sqlite3_column_text e st idx =
     (if idx < length (current_row e st) then cell_text (current_row e st ! idx) else [])"

section \<open>Errors and outcomes\<close>

text \<open>
  \<open>class error\<close> is the one exception type of the wrapper. A call returns, throws, or is an
  instantiation the header rejects with \<open>static_assert\<close>.
\<close>

datatype error = Error (err_code: int)

datatype 'a outcome = Returns 'a | Throws error | Rejected

section \<open>Connection and prepared-statement cache\<close>

record PreparedStmtCache =
  db_handle :: db_ptr
  first_free_stmt :: stmt_ptr
  other_free_stmts :: "stmt_ptr list"

text \<open>
  The state of one thread: the engine, the process-wide \<open>sqlite3_configured\<close> flag, whether
  \<open>post_connection_hook\<close> holds a callable, the thread-local \<open>Connection\<close> (its
  \<open>db_handle\<close>; \<open>None\<close> until constructed) and the thread-local cache singletons, one per
  query text (absent until constructed).
\<close>

record world =
  eng :: engine
  sqlite3_configured :: bool
  post_connection_hook :: bool
  connection :: "db_ptr option"
  caches :: "string \<rightharpoonup> PreparedStmtCache"

definition Connection_ctor :: "string \<Rightarrow> world \<Rightarrow> db_ptr outcome \<times> world" where
  "Connection_ctor db_name w =
     (let w1 = (if \<not> sqlite3_configured w
                then w\<lparr>eng := sqlite3_config_log (sqlite3_config_multithread (eng w)),
                       sqlite3_configured := True\<rparr>
                else w);
          (ret, db, e2) = sqlite3_open db_name (eng w1);
          w2 = w1\<lparr>eng := e2\<rparr>
      in if ret \<noteq> SQLITE_OK then (Throws (Error ret), w2)
         else let w3 = w2\<lparr>eng := sqlite3_busy_handler db (eng w2)\<rparr>;
                  w4 = (if post_connection_hook w3
                        then w3\<lparr>eng := log_call (Post_Connection_Hook db) (eng w3)\<rparr>
                        else w3)
              in (Returns db, w4))"

text \<open>A thread-local object whose constructor throws stays unconstructed.\<close>

definition connection_tls :: "string \<Rightarrow> world \<Rightarrow> db_ptr outcome \<times> world" where
  "connection_tls db_name w =
     (case connection w of
        Some db \<Rightarrow> (Returns db, w)
      | None \<Rightarrow>
          (case Connection_ctor db_name w of
             (Returns db, w1) \<Rightarrow> (Returns db, w1\<lparr>connection := Some db\<rparr>)
           | (Throws err, w1) \<Rightarrow> (Throws err, w1)
           | (Rejected, w1) \<Rightarrow> (Rejected, w1)))"

definition singleton_tls :: "string \<Rightarrow> string \<Rightarrow> world \<Rightarrow> PreparedStmtCache outcome \<times> world" where
  "singleton_tls db_name query_str w =
     (case caches w query_str of
        Some c \<Rightarrow> (Returns c, w)
      | None \<Rightarrow>
          (case connection_tls db_name w of
             (Returns db, w1) \<Rightarrow>
               (let c = \<lparr>db_handle = db, first_free_stmt = None, other_free_stmts = []\<rparr>
                in (Returns c, w1\<lparr>caches := (caches w1)(query_str \<mapsto> c)\<rparr>))
           | (Throws err, w1) \<Rightarrow> (Throws err, w1)
           | (Rejected, w1) \<Rightarrow> (Rejected, w1)))"

definition internal_get ::
  "string \<Rightarrow> PreparedStmtCache \<Rightarrow> engine \<Rightarrow> stmt_ptr outcome \<times> PreparedStmtCache \<times> engine" where
  "internal_get query_str c e =
     (if first_free_stmt c \<noteq> None then
        (Returns (first_free_stmt c), c\<lparr>first_free_stmt := None\<rparr>, e)
      else if other_free_stmts c \<noteq> [] then
        (Returns (last (other_free_stmts c)),
         c\<lparr>other_free_stmts := butlast (other_free_stmts c)\<rparr>, e)
      else
        (let (ret, st, e1) = sqlite3_prepare_v3 (db_handle c) query_str (length query_str + 1)
                               SQLITE_PREPARE_PERSISTENT e
         in if ret \<noteq> SQLITE_OK then (Throws (Error ret), c, e1)
            else (Returns st, c, e1)))"

definition internal_put :: "stmt_ptr \<Rightarrow> PreparedStmtCache \<Rightarrow> PreparedStmtCache" where
  "internal_put st c =
     (if first_free_stmt c = None then c\<lparr>first_free_stmt := st\<rparr>
      else c\<lparr>other_free_stmts := other_free_stmts c @ [st]\<rparr>)"

text \<open>The destructor, run at thread exit: it finalizes the idle statements.\<close>

definition PreparedStmtCache_dtor :: "PreparedStmtCache \<Rightarrow> engine \<Rightarrow> engine" where
  "PreparedStmtCache_dtor c e =
     fold sqlite3_finalize (other_free_stmts c) (sqlite3_finalize (first_free_stmt c) e)"

definition get_tls :: "string \<Rightarrow> string \<Rightarrow> world \<Rightarrow> stmt_ptr outcome \<times> world" where
  "get_tls db_name query_str w =
     (case singleton_tls db_name query_str w of
        (Returns c, w1) \<Rightarrow>
          (let (r, c1, e1) = internal_get query_str c (eng w1)
           in (r, w1\<lparr>eng := e1, caches := (caches w1)(query_str \<mapsto> c1)\<rparr>))
      | (Throws err, w1) \<Rightarrow> (Throws err, w1)
      | (Rejected, w1) \<Rightarrow> (Rejected, w1))"

definition put_tls :: "string \<Rightarrow> string \<Rightarrow> stmt_ptr \<Rightarrow> world \<Rightarrow> unit outcome \<times> world" where
  "put_tls db_name query_str st w =
     (case singleton_tls db_name query_str w of
        (Returns c, w1) \<Rightarrow>
          (Returns (), w1\<lparr>caches := (caches w1)(query_str \<mapsto> internal_put st c)\<rparr>)
      | (Throws err, w1) \<Rightarrow> (Throws err, w1)
      | (Rejected, w1) \<Rightarrow> (Rejected, w1))"

section \<open>Values passed to and read from a statement\<close>

text \<open>
  The integral types: \<open>bool\<close>, and the signed and unsigned types of a given width in
  bits. A value of an integral type is kept as the integer it denotes.
\<close>

datatype integral = IBool | ISigned nat | IUnsigned nat

text \<open>
  The static type of a bind argument after \<open>std::decay_t\<close>. A type that is none of the
  library shapes is a user type, known by its name.
\<close>

datatype ty =
    TIntegral integral
  | TCString
  | TString
  | TStringView
  | TBlob
  | TBlobView
  | TNullopt
  | TOptional ty
  | TUser string

text \<open>
  Values. \<open>VNone t\<close> is the empty \<open>std::optional<t>\<close>, \<open>VSome a\<close> the optional that holds
  \<open>a\<close>; a user object carries the name of its type and a payload.
\<close>

datatype 'u val =
    VIntegral integral int
  | VCString string
  | VString string
  | VStringView string
  | VBlob string
  | VBlobView string
  | VNullopt
  | VNone ty
  | VSome "'u val"
  | VUser string 'u

fun type_of :: "'u val \<Rightarrow> ty" where
  "type_of (VIntegral t a) = TIntegral t"
| "type_of (VCString s) = TCString"
| "type_of (VString s) = TString"
| "type_of (VStringView s) = TStringView"
| "type_of (VBlob s) = TBlob"
| "type_of (VBlobView s) = TBlobView"
| "type_of VNullopt = TNullopt"
| "type_of (VNone t) = TOptional t"
| "type_of (VSome a) = TOptional (type_of a)"
| "type_of (VUser n p) = TUser n"

text \<open>The conversion of an integral argument to \<open>sqlite3_int64\<close>.\<close>

definition to_sqlite3_int64 :: "int \<Rightarrow> int" where
  "to_sqlite3_int64 a = signed_take_bit 63 a"

text \<open>The conversion of a \<open>sqlite3_int64\<close> to the integral type it is assigned to.\<close>

fun from_sqlite3_int64 :: "integral \<Rightarrow> int \<Rightarrow> int" where
  "from_sqlite3_int64 IBool v = (if v = 0 then 0 else 1)"
| "from_sqlite3_int64 (ISigned n) v = signed_take_bit (n - 1) v"
| "from_sqlite3_int64 (IUnsigned n) v = take_bit n v"

text \<open>\<open>strlen\<close>: the bytes before the first zero byte.\<close>

definition strlen_bytes :: "string \<Rightarrow> string" where
  "strlen_bytes s = takeWhile (\<lambda>c. c \<noteq> CHR 0x00) s"

section \<open>User serialize converters\<close>

text \<open>
  The registry of explicit specialisations of \<open>user_serialize_fn\<close>: for the name of a user
  type, the return type of its converter and the converter. \<open>user_serialize_fn\<close> is the
  variable template itself: the registered converter of a user type, the lifted converter
  of \<open>std::optional<T>\<close> when \<open>T\<close> has one, and \<open>nullptr\<close> (\<open>None\<close>) otherwise.
\<close>

type_synonym 'u serialize_registry = "string \<Rightarrow> (ty \<times> ('u val \<Rightarrow> 'u val)) option"

fun user_serialize_fn :: "'u serialize_registry \<Rightarrow> ty \<Rightarrow> (ty \<times> ('u val \<Rightarrow> 'u val)) option" where
  "user_serialize_fn reg (TUser n) = reg n"
| "user_serialize_fn reg (TOptional t) =
     (case user_serialize_fn reg t of
        None \<Rightarrow> None
      | Some (rt, f) \<Rightarrow>
          Some (TOptional rt,
                \<lambda>arg. case arg of
                        VSome a \<Rightarrow> VSome (f a)
                      | _ \<Rightarrow> VNone rt))"
| "user_serialize_fn reg t = None"

definition maybe_serialize :: "'u serialize_registry \<Rightarrow> 'u val \<Rightarrow> 'u val" where
  "maybe_serialize reg arg =
     (case user_serialize_fn reg (type_of arg) of
        Some (rt, f) \<Rightarrow> f arg
      | None \<Rightarrow> arg)"

section \<open>The result cursor\<close>

text \<open>
  \<open>put_cb\<close> points to \<open>PreparedStmtCache<query_str>::put_tls\<close>; it is kept as the query
  text of that cache.
\<close>

record QueryResult =
  stmt :: stmt_ptr
  put_cb :: string
  ret :: int
  first_invocation :: bool

text \<open>
  The default constructor sets \<open>stmt\<close> only; \<open>put_cb\<close> and \<open>ret\<close> hold whatever the
  storage held.
\<close>

definition QueryResult_default :: "string \<Rightarrow> int \<Rightarrow> QueryResult" where
  "QueryResult_default indeterminate_put_cb indeterminate_ret =
     \<lparr>stmt = None, put_cb = indeterminate_put_cb, ret = indeterminate_ret,
      first_invocation = True\<rparr>"

definition QueryResult_ctor :: "stmt_ptr \<Rightarrow> string \<Rightarrow> engine \<Rightarrow> QueryResult \<times> engine" where
  "QueryResult_ctor stmt' put_cb' e =
     (let (r, e1) = sqlite3_step stmt' e
      in (\<lparr>stmt = stmt', put_cb = put_cb', ret = r, first_invocation = True\<rparr>, e1))"

text \<open>
  Move assignment works on two objects that may be the same one, so the cursors live in a
  store indexed by address.
\<close>

type_synonym store = "nat \<Rightarrow> QueryResult"

definition move_assign :: "nat \<Rightarrow> nat \<Rightarrow> store \<Rightarrow> store" where
  "move_assign this other s =
     (if this \<noteq> other then
        (let s1 = s(this := (s this)\<lparr>stmt := stmt (s other)\<rparr>);
             s2 = s1(this := (s1 this)\<lparr>ret := ret (s1 other)\<rparr>);
             s3 = s2(this := (s2 this)\<lparr>first_invocation := first_invocation (s2 other)\<rparr>);
             s4 = s3(this := (s3 this)\<lparr>put_cb := put_cb (s3 other)\<rparr>)
         in s4(other := (s4 other)\<lparr>stmt := None\<rparr>))
      else s)"

definition QueryResult_dtor :: "string \<Rightarrow> QueryResult \<Rightarrow> world \<Rightarrow> unit outcome \<times> world" where
  "QueryResult_dtor db_name qr w =
     (if stmt qr = None then (Returns (), w)
      else
        (let e1 = sqlite3_clear_bindings (stmt qr) (eng w);
             e2 = sqlite3_reset (stmt qr) e1
         in put_tls db_name (put_cb qr) (stmt qr) (w\<lparr>eng := e2\<rparr>)))"

definition resultCode :: "QueryResult \<Rightarrow> int" where
  "resultCode qr = ret qr"

section \<open>query\<close>

text \<open>
  \<open>bind_dispatcher\<close> on one argument, with the shared \<open>idx\<close>. The last two equations are
  the \<open>static_assert\<close> branch: those instantiations do not exist, and \<open>query\<close> rejects
  them (\<open>bindable\<close>) before anything runs.
\<close>

fun bind_dispatcher :: "stmt_ptr \<Rightarrow> 'u val \<Rightarrow> nat \<times> engine \<Rightarrow> nat \<times> engine" where
  "bind_dispatcher st (VIntegral t a) (idx, e) =
     (idx + 1, sqlite3_bind_int64 st idx (to_sqlite3_int64 a) e)"
| "bind_dispatcher st (VCString s) (idx, e) =
     (idx + 1, sqlite3_bind_text st idx (strlen_bytes s) e)"
| "bind_dispatcher st (VString s) (idx, e) = (idx + 1, sqlite3_bind_text st idx s e)"
| "bind_dispatcher st (VBlob s) (idx, e) = (idx + 1, sqlite3_bind_blob st idx s e)"
| "bind_dispatcher st (VBlobView s) (idx, e) = (idx + 1, sqlite3_bind_blob st idx s e)"
| "bind_dispatcher st VNullopt (idx, e) = (idx + 1, sqlite3_bind_null st idx e)"
| "bind_dispatcher st (VSome a) (idx, e) = bind_dispatcher st a (idx, e)"
| "bind_dispatcher st (VNone t) (idx, e) = (idx + 1, sqlite3_bind_null st idx e)"
| "bind_dispatcher st (VStringView s) (idx, e) = (idx, e)"
| "bind_dispatcher st (VUser n p) (idx, e) = (idx, e)"

fun bindable :: "ty \<Rightarrow> bool" where
  "bindable (TIntegral t) = True"
| "bindable TCString = True"
| "bindable TString = True"
| "bindable TBlob = True"
| "bindable TBlobView = True"
| "bindable TNullopt = True"
| "bindable (TOptional t) = bindable t"
| "bindable TStringView = False"
| "bindable (TUser n) = False"

text \<open>The branch of \<open>query\<close> taken when no argument type has a serialize converter.\<close>

definition query_bound :: "string \<Rightarrow> string \<Rightarrow> 'u val list \<Rightarrow> world \<Rightarrow> QueryResult outcome \<times> world" where
  "query_bound db_name query_str bind_args w =
     (if \<not> list_all (\<lambda>a. bindable (type_of a)) bind_args then (Rejected, w)
      else
        (case get_tls db_name query_str w of
           (Returns st, w1) \<Rightarrow>
             (let (idx, e2) = fold (bind_dispatcher st) bind_args (1, eng w1);
                  (qr, e3) = QueryResult_ctor st query_str e2
              in (Returns qr, w1\<lparr>eng := e3\<rparr>))
         | (Throws err, w1) \<Rightarrow> (Throws err, w1)
         | (Rejected, w1) \<Rightarrow> (Rejected, w1)))"

text \<open>
  \<open>query\<close> calls itself with the converted arguments for as long as some argument type
  has a converter; a converter whose return type has a converter again can keep it going
  for ever, which is the value \<open>None\<close>.
\<close>

partial_function (option) query ::
  "'u serialize_registry \<Rightarrow> string \<Rightarrow> string \<Rightarrow> 'u val list \<Rightarrow> world
     \<Rightarrow> (QueryResult outcome \<times> world) option" where
  "query reg db_name query_str bind_args w =
     (if list_ex (\<lambda>a. user_serialize_fn reg (type_of a) \<noteq> None) bind_args
      then query reg db_name query_str (map (maybe_serialize reg) bind_args) w
      else Some (query_bound db_name query_str bind_args w))"

section \<open>Advancing the cursor\<close>

text \<open>
  The static type of an output reference: the shapes \<open>column_dispatcher\<close> accepts. A user
  type is accepted when \<open>user_deserialize_fn\<close> has a converter for it; it is described by
  its name and the argument type of that converter.
\<close>

datatype out_ty =
    OIntegral integral
  | OString
  | OStringView
  | ONullopt
  | OOptional out_ty
  | OUser string out_ty

fun ty_of :: "out_ty \<Rightarrow> ty" where
  "ty_of (OIntegral t) = TIntegral t"
| "ty_of OString = TString"
| "ty_of OStringView = TStringView"
| "ty_of ONullopt = TNullopt"
| "ty_of (OOptional t) = TOptional (ty_of t)"
| "ty_of (OUser n t) = TUser n"

text \<open>
  \<open>column_dispatcher\<close> on one output reference: the value assigned to it and the shared
  \<open>idx\<close> afterwards. \<open>user_deserialize_fn\<close> gives the converter of a user type by name.
\<close>

fun column_dispatcher ::
  "(string \<Rightarrow> 'u val \<Rightarrow> 'u val) \<Rightarrow> engine \<Rightarrow> stmt_ptr \<Rightarrow> out_ty \<Rightarrow> nat \<Rightarrow> 'u val \<times> nat" where
  "column_dispatcher user_deserialize_fn e st (OIntegral t) idx =
     (VIntegral t (from_sqlite3_int64 t (sqlite3_column_int64 e st idx)), idx + 1)"
| "column_dispatcher user_deserialize_fn e st OString idx =
     (VString (sqlite3_column_text e st idx), idx + 1)"
| "column_dispatcher user_deserialize_fn e st OStringView idx =
     (VStringView (sqlite3_column_text e st idx), idx + 1)"
| "column_dispatcher user_deserialize_fn e st ONullopt idx = (VNullopt, idx + 1)"
| "column_dispatcher user_deserialize_fn e st (OOptional t) idx =
     (if sqlite3_column_type e st idx = SQLITE_NULL then (VNone (ty_of t), idx + 1)
      else
        (let (nonnull_arg, idx1) = column_dispatcher user_deserialize_fn e st t idx
         in (VSome nonnull_arg, idx1)))"
| "column_dispatcher user_deserialize_fn e st (OUser n t) idx =
     (let (from_arg, idx1) = column_dispatcher user_deserialize_fn e st t idx
      in (user_deserialize_fn n from_arg, idx1))"

text \<open>The fold expression over the output references, left to right.\<close>

fun column_dispatch_all ::
  "(string \<Rightarrow> 'u val \<Rightarrow> 'u val) \<Rightarrow> engine \<Rightarrow> stmt_ptr \<Rightarrow> out_ty list \<Rightarrow> nat \<Rightarrow> 'u val list \<times> nat" where
  "column_dispatch_all user_deserialize_fn e st [] idx = ([], idx)"
| "column_dispatch_all user_deserialize_fn e st (t # ts) idx =
     (let (v, idx1) = column_dispatcher user_deserialize_fn e st t idx;
          (vs, idx2) = column_dispatch_all user_deserialize_fn e st ts idx1
      in (v # vs, idx2))"

text \<open>
  \<open>operator()\<close>: each output reference is given by its static type and the value it holds
  before the call; the result has the outcome, the values the references hold afterwards,
  the cursor and the state.
\<close>

definition advance ::
  "(string \<Rightarrow> 'u val \<Rightarrow> 'u val) \<Rightarrow> (out_ty \<times> 'u val) list \<Rightarrow> QueryResult \<Rightarrow> world
     \<Rightarrow> bool outcome \<times> 'u val list \<times> QueryResult \<times> world" where
  "advance user_deserialize_fn args qr w =
     (if length args > sqlite3_column_count (eng w) (stmt qr)
      then (Throws (Error SQLITE_ERROR), map snd args, qr, w)
      else
        (let (r, e1) = (if \<not> first_invocation qr then sqlite3_step (stmt qr) (eng w)
                        else (ret qr, eng w));
             qr1 = qr\<lparr>ret := r\<rparr>;
             w1 = w\<lparr>eng := e1\<rparr>
         in if ret qr1 \<noteq> SQLITE_ROW then (Returns False, map snd args, qr1, w1)
            else
              (let (vs, idx) = column_dispatch_all user_deserialize_fn e1 (stmt qr1)
                                 (map fst args) 0
               in (Returns True, vs, qr1\<lparr>first_invocation := False\<rparr>, w1))))"

section \<open>Usage scenarios and observations\<close>

text \<open>A caller advancing one cursor several times, with the given output references.\<close>

fun advances ::
  "(string \<Rightarrow> 'u val \<Rightarrow> 'u val) \<Rightarrow> (out_ty \<times> 'u val) list list \<Rightarrow> QueryResult \<Rightarrow> world
     \<Rightarrow> bool outcome list \<times> QueryResult \<times> world" where
  "advances user_deserialize_fn [] qr w = ([], qr, w)"
| "advances user_deserialize_fn (args # rest) qr w =
     (let (r, vs, qr1, w1) = advance user_deserialize_fn args qr w;
          (rs, qr2, w2) = advances user_deserialize_fn rest qr1 w1
      in (r # rs, qr2, w2))"

text \<open>
  A thread issuing queries one after the other: each invocation gives the query text, the
  bind arguments and the output references of the advances made on the cursor, which is
  destroyed before the next invocation. An invocation that throws or is rejected leaves no
  cursor.
\<close>

fun run_sequentially ::
  "'u serialize_registry \<Rightarrow> (string \<Rightarrow> 'u val \<Rightarrow> 'u val) \<Rightarrow> string
     \<Rightarrow> (string \<times> 'u val list \<times> (out_ty \<times> 'u val) list list) list \<Rightarrow> world \<Rightarrow> world option" where
  "run_sequentially reg user_deserialize_fn db_name [] w = Some w"
| "run_sequentially reg user_deserialize_fn db_name ((query_str, bind_args, outs) # rest) w =
     (case query reg db_name query_str bind_args w of
        None \<Rightarrow> None
      | Some (Returns qr, w1) \<Rightarrow>
          (case advances user_deserialize_fn outs qr w1 of
             (rs, qr2, w2) \<Rightarrow>
               run_sequentially reg user_deserialize_fn db_name rest
                 (snd (QueryResult_dtor db_name qr2 w2)))
      | Some (Throws err, w1) \<Rightarrow> run_sequentially reg user_deserialize_fn db_name rest w1
      | Some (Rejected, w1) \<Rightarrow> run_sequentially reg user_deserialize_fn db_name rest w1)"

text \<open>The statements the engine has prepared from scratch for a query text, read off the log.\<close>

fun prepared_stmts :: "string \<Rightarrow> call list \<Rightarrow> sqlite3_stmt list" where
  "prepared_stmts q [] = []"
| "prepared_stmts q (Prepare db zSql nByte prepFlags rc st # cs) =
     (if zSql = q \<and> rc = SQLITE_OK then (case st of Some h \<Rightarrow> [h] | None \<Rightarrow> []) else [])
       @ prepared_stmts q cs"
| "prepared_stmts q (c # cs) = prepared_stmts q cs"

text \<open>The statements idle in the cache of a query text: the single slot, then the overflow list.\<close>

definition idle_stmts :: "string \<Rightarrow> world \<Rightarrow> stmt_ptr list" where
  "idle_stmts q w =
     (case caches w q of
        None \<Rightarrow> []
      | Some c \<Rightarrow>
          (case first_free_stmt c of None \<Rightarrow> [] | Some h \<Rightarrow> [Some h]) @ other_free_stmts c)"

text \<open>The engine steps in a log.\<close>

fun is_step :: "call \<Rightarrow> bool" where
  "is_step (Step st) = True"
| "is_step c = False"

definition step_calls :: "world \<Rightarrow> call list" where
  "step_calls w = filter is_step (calls (eng w))"

text \<open>The calls that configure the engine and make the connection.\<close>

fun is_setup_call :: "call \<Rightarrow> bool" where
  "is_setup_call Config_Multithread = True"
| "is_setup_call Config_Log = True"
| "is_setup_call (Open filename rc db) = True"
| "is_setup_call (Busy_Handler db) = True"
| "is_setup_call (Post_Connection_Hook db) = True"
| "is_setup_call c = False"

fun is_prepare :: "call \<Rightarrow> bool" where
  "is_prepare (Prepare db zSql nByte prepFlags rc st) = True"
| "is_prepare c = False"

text \<open>The return code an open or a prepare answered with.\<close>

fun answered :: "call \<Rightarrow> int option" where
  "answered (Open filename rc db) = Some rc"
| "answered (Prepare db zSql nByte prepFlags rc st) = Some rc"
| "answered c = None"

text \<open>
  The cache of a query text accounts for the statements prepared for it: between
  invocations the idle statements are the prepared ones, and while a cursor holds the
  statement \<open>st\<close> the idle statements and \<open>st\<close> are. At most one statement has been
  prepared.
\<close>

definition cache_consistent :: "string \<Rightarrow> world \<Rightarrow> bool" where
  "cache_consistent q w \<longleftrightarrow>
     idle_stmts q w = map Some (prepared_stmts q (calls (eng w)))
     \<and> length (prepared_stmts q (calls (eng w))) \<le> 1"

definition checked_out :: "string \<Rightarrow> stmt_ptr \<Rightarrow> world \<Rightarrow> bool" where
  "checked_out q st w \<longleftrightarrow>
     caches w q \<noteq> None
     \<and> idle_stmts q w @ (case st of None \<Rightarrow> [] | Some h \<Rightarrow> [Some h])
         = map Some (prepared_stmts q (calls (eng w)))
     \<and> length (prepared_stmts q (calls (eng w))) \<le> 1"

text \<open>
  The bind dispatcher as the specification words it: the engine call an argument is bound
  with at a parameter index.
\<close>

fun spec_bind_call :: "stmt_ptr \<Rightarrow> nat \<Rightarrow> 'u val \<Rightarrow> call" where
  "spec_bind_call st idx (VIntegral t a) = Bind_Int64 st idx (to_sqlite3_int64 a)"
| "spec_bind_call st idx (VCString s) = Bind_Text st idx (strlen_bytes s)"
| "spec_bind_call st idx (VString s) = Bind_Text st idx s"
| "spec_bind_call st idx (VBlob s) = Bind_Blob st idx s"
| "spec_bind_call st idx (VBlobView s) = Bind_Blob st idx s"
| "spec_bind_call st idx VNullopt = Bind_Null st idx"
| "spec_bind_call st idx (VNone t) = Bind_Null st idx"
| "spec_bind_call st idx (VSome a) = spec_bind_call st idx a"
| "spec_bind_call st idx (VStringView s) = Bind_Null st idx"
| "spec_bind_call st idx (VUser n p) = Bind_Null st idx"

subsection \<open>Example states\<close>

text \<open>An engine that has not been called yet, with the given scripts.\<close>

definition scripted ::
  "(int \<times> db_ptr) list \<Rightarrow> (int \<times> stmt_ptr \<times> nat) list \<Rightarrow> (int \<times> cell list) list \<Rightarrow> engine" where
  "scripted os ps ss =
     \<lparr>calls = [], open_results = os, prepare_results = ps, step_results = ss,
      column_counts = (\<lambda>st. 0), current_row = (\<lambda>st. [])\<rparr>"

text \<open>A thread that has not touched the database yet.\<close>

definition fresh_thread :: "engine \<Rightarrow> world" where
  "fresh_thread e =
     \<lparr>eng = e, sqlite3_configured = False, post_connection_hook = False,
      connection = None, caches = Map.empty\<rparr>"

text \<open>The row \<open>(1, "hello")\<close> of the end-to-end example.\<close>

definition example_row :: "cell list" where
  "example_row =
     [\<lparr>cell_type = 1, cell_int64 = 1, cell_text = ''1''\<rparr>,
      \<lparr>cell_type = 3, cell_int64 = 0, cell_text = ''hello''\<rparr>]"

definition select_query :: string where
  "select_query = ''select a, b from test where a = ?1''"

text \<open>
  The engine of the end-to-end example: the open and the prepare succeed, the statement
  has two columns, the first step finds the row, the second finds no more rows, and a step
  after that starts the statement over and finds the row again, as the engine does for a
  statement that is stepped after it has run to completion.
\<close>

definition example_world :: world where
  "example_world =
     fresh_thread
       (scripted [(SQLITE_OK, Some 7)] [(SQLITE_OK, Some 1, 2), (SQLITE_OK, Some 2, 2)]
          [(SQLITE_ROW, example_row), (SQLITE_DONE, []), (SQLITE_ROW, example_row)])"

text \<open>
  The query of the end-to-end example, bound with \<open>1\<close>, on that engine; the cursor it
  returns and the state it leaves; and the output references \<open>int a; std::string b;\<close>.
\<close>

definition example_query :: "QueryResult outcome \<times> world" where
  "example_query =
     query_bound ''example.db'' select_query [VIntegral (ISigned 32) 1 :: unit val] example_world"

definition example_cursor :: QueryResult where
  "example_cursor =
     \<lparr>stmt = Some 1, put_cb = select_query, ret = SQLITE_ROW, first_invocation = True\<rparr>"

definition example_outputs :: "(out_ty \<times> unit val) list" where
  "example_outputs =
     [(OIntegral (ISigned 32), VIntegral (ISigned 32) 0), (OString, VString [])]"

text \<open>No registered converters.\<close>

definition no_serializers :: "unit serialize_registry" where
  "no_serializers = (\<lambda>n. None)"

definition no_deserializers :: "string \<Rightarrow> unit val \<Rightarrow> unit val" where
  "no_deserializers = (\<lambda>n v. v)"

text \<open>Three invocations of the example query, one after the other.\<close>

definition example_invocations ::
  "(string \<times> unit val list \<times> (out_ty \<times> unit val) list list) list" where
  "example_invocations =
     [(select_query, [VIntegral (ISigned 32) 1], [example_outputs, example_outputs]),
      (select_query, [VIntegral (ISigned 32) 2], []),
      (select_query, [VIntegral (ISigned 32) 1], [example_outputs])]"

text \<open>
  A user type \<open>string_wrapper\<close> with a serialize converter to \<open>std::string\<close>, as in the
  tests, and arguments that use it directly and inside optionals.
\<close>

definition string_wrapper_to_string :: "string val \<Rightarrow> string val" where
  "string_wrapper_to_string arg = (case arg of VUser n p \<Rightarrow> VString p | _ \<Rightarrow> arg)"

definition string_wrapper_serializers :: "string serialize_registry" where
  "string_wrapper_serializers =
     (\<lambda>n. if n = ''string_wrapper'' then Some (TString, string_wrapper_to_string) else None)"

definition string_wrapper_args :: "string val list" where
  "string_wrapper_args =
     [VIntegral (ISigned 32) 1, VUser ''string_wrapper'' ''hello'',
      VSome (VUser ''string_wrapper'' ''x''), VNone (TUser ''string_wrapper'')]"

text \<open>
  Threads whose engine refuses the open, refuses the prepare, and answers the first step
  with \<open>SQLITE_CONSTRAINT\<close>; the insert of the tests.
\<close>

definition open_fails_world :: world where
  "open_fails_world = fresh_thread (scripted [(SQLITE_CANTOPEN, None)] [] [])"

definition prepare_fails_world :: world where
  "prepare_fails_world =
     fresh_thread (scripted [(SQLITE_OK, Some 7)] [(SQLITE_ERROR, None, 0)] [])"

definition constraint_world :: world where
  "constraint_world =
     fresh_thread (scripted [(SQLITE_OK, Some 7)] [(SQLITE_OK, Some 1, 0)] [(19, [])])"

definition insert_query :: string where
  "insert_query = ''insert into test (a, b) values (?1, ?2)''"

definition insert_args :: "unit val list" where
  "insert_args = [VIntegral (ISigned 32) 1, VBlob ''hello'']"

text \<open>
  The pattern of \<open>test_blob_and_blob_view\<close> and \<open>test_transactions\<close>: a cursor variable
  (address 0) holds the cursor of a first query, the cursor of a second query (the
  temporary, address 1) is move-assigned to it, the temporary is destroyed at the end of
  the statement and the variable at the end of the scope.
\<close>

definition assign_second_query ::
  "string \<Rightarrow> string \<Rightarrow> 'u val list \<Rightarrow> 'u val list \<Rightarrow> world \<Rightarrow> (store \<times> world) option" where
  "assign_second_query db_name query_str args1 args2 w =
     (case query_bound db_name query_str args1 w of
        (Returns fetch_row, w1) \<Rightarrow>
          (case query_bound db_name query_str args2 w1 of
             (Returns temporary, w2) \<Rightarrow>
               (let s = move_assign 0 1 ((\<lambda>a. QueryResult_default [] 0)(0 := fetch_row, 1 := temporary));
                    w3 = snd (QueryResult_dtor db_name (s 1) w2);
                    w4 = snd (QueryResult_dtor db_name (s 0) w3)
                in Some (s, w4))
           | _ \<Rightarrow> None)
      | _ \<Rightarrow> None)"

section \<open>Properties\<close>

lemmas engine_defs = log_call_def sqlite3_config_multithread_def sqlite3_config_log_def sqlite3_open_def
  sqlite3_busy_handler_def sqlite3_prepare_v3_def sqlite3_bind_int64_def sqlite3_bind_text_def
  sqlite3_bind_blob_def sqlite3_bind_null_def sqlite3_step_def sqlite3_clear_bindings_def sqlite3_reset_def
  sqlite3_column_count_def sqlite3_column_type_def sqlite3_column_int64_def sqlite3_column_text_def

lemmas cache_defs = Connection_ctor_def connection_tls_def singleton_tls_def internal_get_def internal_put_def
  get_tls_def put_tls_def

lemmas example_defs = scripted_def fresh_thread_def example_row_def select_query_def example_world_def
  no_serializers_def no_deserializers_def


lemma bind_dispatcher_spec:
  "bindable (type_of a) \<Longrightarrow>
   bind_dispatcher st a (idx, e) = (idx + 1, log_call (spec_bind_call st idx a) e)"
  by (induction st a "(idx, e)" rule: bind_dispatcher.induct)
     (auto simp: sqlite3_bind_int64_def sqlite3_bind_text_def sqlite3_bind_blob_def sqlite3_bind_null_def)

lemma fold_bind_dispatcher:
  "list_all (\<lambda>a. bindable (type_of a)) args \<Longrightarrow>
   fold (bind_dispatcher st) args (idx, e) =
     (idx + length args,
      e\<lparr>calls := calls e @ map2 (spec_bind_call st) [idx ..< idx + length args] args\<rparr>)"
proof (induction args arbitrary: idx e)
  case Nil
  then show ?case by simp
next
  case (Cons a args)
  have "[idx ..< idx + length (a # args)] = idx # [idx + 1 ..< idx + 1 + length args]"
    using upt_conv_Cons [of idx "idx + Suc (length args)"] by simp
  with Cons show ?case
    by (simp add: bind_dispatcher_spec log_call_def)
qed

subsection \<open>Destroying a cursor that holds no statement\<close>

text \<open>
  Claim C10. Destroying a default-constructed cursor, or the source of a move assignment
  to another cursor, returns at once: the state is unchanged, so there is no
  \<open>sqlite3_clear_bindings\<close>, no \<open>sqlite3_reset\<close> and no \<open>put_tls\<close>. The handle of a
  moved-from cursor is null. Move assignment of a cursor to itself changes nothing.
\<close>

theorem empty_cursor_destructor_noop:
  "QueryResult_dtor db_name (QueryResult_default p r) w = (Returns (), w)
   \<and> (this \<noteq> other \<longrightarrow>
        stmt (move_assign this other s other) = None
        \<and> QueryResult_dtor db_name (move_assign this other s other) w = (Returns (), w))
   \<and> move_assign this this s = s"
  by (simp add: QueryResult_dtor_def QueryResult_default_def move_assign_def Let_def)

theorem empty_cursor_destructor_noop_witness:
  "(0::nat) \<noteq> 1
   \<and> stmt (move_assign 0 1
        ((\<lambda>a. QueryResult_default [] 0)
           (1 := \<lparr>stmt = Some 1, put_cb = select_query, ret = 100, first_invocation = True\<rparr>)) 1) = None
   \<and> QueryResult_dtor ''example.db'' (move_assign 0 1
        ((\<lambda>a. QueryResult_default [] 0)
           (1 := \<lparr>stmt = Some 1, put_cb = select_query, ret = 100, first_invocation = True\<rparr>)) 1)
        example_world = (Returns (), example_world)"
  using empty_cursor_destructor_noop [of "''example.db''" "[]" 0 example_world 0 1
    "(\<lambda>a. QueryResult_default [] 0)
           (1 := \<lparr>stmt = Some 1, put_cb = select_query, ret = 100, first_invocation = True\<rparr>)"]
  by simp

subsection \<open>The column-count guard\<close>

text \<open>
  Claim C4. An advance with more output references than the statement has columns throws
  \<open>error{SQLITE_ERROR}\<close>; the state is unchanged (the engine was not stepped and no column
  was read), the cursor is unchanged and every output reference holds the value it held
  before.
\<close>

theorem column_count_guard:
  "length args > sqlite3_column_count (eng w) (stmt qr) \<Longrightarrow>
   advance user_deserialize_fn args qr w = (Throws (Error SQLITE_ERROR), map snd args, qr, w)"
  by (simp add: advance_def)


lemmas all_defs = engine_defs cache_defs example_defs query_bound_def QueryResult_ctor_def
  to_sqlite3_int64_def Let_def example_query_def example_cursor_def example_outputs_def

lemma example_query_calls:
  "fst example_query = Returns example_cursor \<and>
   calls (eng (snd example_query)) =
     [Config_Multithread, Config_Log, Open ''example.db'' 0 (Some 7), Busy_Handler (Some 7),
      Prepare (Some 7) select_query 35 1 0 (Some 1), Bind_Int64 (Some 1) 1 1, Step (Some 1)]"
  by (simp add: all_defs)

theorem column_count_guard_witness:
  "length ((ONullopt, VNullopt) # example_outputs)
     > sqlite3_column_count (eng (snd example_query)) (stmt example_cursor)
   \<and> advance no_deserializers ((ONullopt, VNullopt) # example_outputs) example_cursor
         (snd example_query)
       = (Throws (Error SQLITE_ERROR), [VNullopt, VIntegral (ISigned 32) 0, VString []],
          example_cursor, snd example_query)"
proof -
  have h: "length ((ONullopt, VNullopt) # example_outputs)
     > sqlite3_column_count (eng (snd example_query)) (stmt example_cursor)"
    by (simp add: all_defs)
  show ?thesis
    using h column_count_guard [OF h, of no_deserializers] by (simp add: example_outputs_def)
qed

subsection \<open>Optionals\<close>



subsection \<open>The bind dispatcher\<close>

text \<open>
  Claim C6. For arguments of bindable types, the fold over the arguments makes one engine
  call for each argument, in order, the argument at position \<open>k\<close> (from 0) at parameter
  index \<open>k + 1\<close>, and the call is the one the specification names for its type
  (\<open>spec_bind_call\<close>): \<open>sqlite3_bind_int64\<close> for an integral type, \<open>sqlite3_bind_text\<close>
  for a C string or \<open>std::string\<close>, \<open>sqlite3_bind_blob\<close> for \<open>blob\<close> and \<open>blob_view\<close>,
  \<open>sqlite3_bind_null\<close> for \<open>std::nullopt\<close>. In a query that returns a cursor these calls come
  after the checkout of the statement and before the one step that the construction of
  the cursor makes.
\<close>

theorem bind_dispatcher_mapping:
  assumes "list_all (\<lambda>a. bindable (type_of a)) bind_args"
  shows "fold (bind_dispatcher st) bind_args (1, e)
           = (1 + length bind_args,
              e\<lparr>calls := calls e @ map2 (spec_bind_call st) [1 ..< 1 + length bind_args] bind_args\<rparr>)
         \<and> (query_bound db_name query_str bind_args w = (Returns qr, w') \<longrightarrow>
              get_tls db_name query_str w = (Returns (stmt qr), snd (get_tls db_name query_str w))
              \<and> calls (eng w')
                  = calls (eng (snd (get_tls db_name query_str w)))
                    @ map2 (spec_bind_call (stmt qr)) [1 ..< 1 + length bind_args] bind_args
                    @ [Step (stmt qr)])"
proof (intro conjI impI)
  show "fold (bind_dispatcher st) bind_args (1, e)
           = (1 + length bind_args,
              e\<lparr>calls := calls e @ map2 (spec_bind_call st) [1 ..< 1 + length bind_args] bind_args\<rparr>)"
    by (rule fold_bind_dispatcher [OF assms])
next
  assume q: "query_bound db_name query_str bind_args w = (Returns qr, w')"
  obtain r w1 where g: "get_tls db_name query_str w = (r, w1)"
    by fastforce
  from q assms g obtain s where r: "r = Returns s"
    by (cases r) (auto simp: query_bound_def)
  define bs where "bs = map2 (spec_bind_call s) [1 ..< 1 + length bind_args] bind_args"
  have "fold (bind_dispatcher s) bind_args (1, eng w1)
          = (1 + length bind_args, (eng w1)\<lparr>calls := calls (eng w1) @ bs\<rparr>)"
    unfolding bs_def by (rule fold_bind_dispatcher [OF assms])
  then have f: "fold (bind_dispatcher s) bind_args (Suc 0, eng w1)
          = (Suc (length bind_args), (eng w1)\<lparr>calls := calls (eng w1) @ bs\<rparr>)"
    by simp
  from q assms g r f have qr: "stmt qr = s" and c: "calls (eng w') = calls (eng w1) @ bs @ [Step s]"
    by (auto simp: query_bound_def QueryResult_ctor_def sqlite3_step_def log_call_def
        split: prod.splits list.splits)
  from g r qr show "get_tls db_name query_str w = (Returns (stmt qr), snd (get_tls db_name query_str w))"
    by simp
  from g c qr show "calls (eng w')
                  = calls (eng (snd (get_tls db_name query_str w)))
                    @ map2 (spec_bind_call (stmt qr)) [1 ..< 1 + length bind_args] bind_args
                    @ [Step (stmt qr)]"
    unfolding bs_def by simp
qed

theorem bind_dispatcher_mapping_witness:
  "list_all (\<lambda>a. bindable (type_of a))
     [VCString ''Mary'', VString ''Smith'', VIntegral (ISigned 32) 28, VNullopt, VBlob ''x'', VNone TString, VSome (VIntegral IBool 1) :: unit val]
   \<and> snd (fold (bind_dispatcher (Some 1))
       [VCString ''Mary'', VString ''Smith'', VIntegral (ISigned 32) 28, VNullopt, VBlob ''x'', VNone TString, VSome (VIntegral IBool 1) :: unit val]
       (1, scripted [] [] []))
     = (scripted [] [] [])\<lparr>calls :=
         [Bind_Text (Some 1) 1 ''Mary'', Bind_Text (Some 1) 2 ''Smith'', Bind_Int64 (Some 1) 3 28,
          Bind_Null (Some 1) 4, Bind_Blob (Some 1) 5 ''x'', Bind_Null (Some 1) 6, Bind_Int64 (Some 1) 7 1]\<rparr>
   \<and> query_bound ''example.db'' select_query [VIntegral (ISigned 32) 1 :: unit val] example_world
       = (Returns example_cursor, snd example_query)
   \<and> calls (eng (snd example_query))
       = calls (eng (snd (get_tls ''example.db'' select_query example_world)))
         @ [Bind_Int64 (Some 1) 1 1, Step (Some 1)]"
proof -
  have h: "list_all (\<lambda>a. bindable (type_of a))
     [VCString ''Mary'', VString ''Smith'', VIntegral (ISigned 32) 28, VNullopt, VBlob ''x'', VNone TString, VSome (VIntegral IBool 1) :: unit val]"
    by simp
  have h1: "list_all (\<lambda>a. bindable (type_of a)) [VIntegral (ISigned 32) 1 :: unit val]"
    by simp
  have q: "query_bound ''example.db'' select_query [VIntegral (ISigned 32) 1 :: unit val] example_world
       = (Returns example_cursor, snd example_query)"
    using example_query_calls by (simp add: example_query_def prod_eq_iff)
  have u: "[1 ..< 1 + length [VCString ''Mary'', VString ''Smith'', VIntegral (ISigned 32) 28, VNullopt, VBlob ''x'', VNone TString, VSome (VIntegral IBool 1) :: unit val]] = [1,2,3,4,5,6,7]"
    by code_simp
  show ?thesis
    using h q u 
      bind_dispatcher_mapping [OF h, of "Some 1" "scripted [] [] []"]
      bind_dispatcher_mapping [OF h1, of _ _ "''example.db''" select_query example_world example_cursor "snd example_query"]
    by (simp add: scripted_def to_sqlite3_int64_def strlen_bytes_def example_cursor_def)
qed

subsection \<open>What the connection and the cache singletons change\<close>

lemma Connection_ctor_log:
  "\<exists>xs. calls (eng (snd (Connection_ctor db_name w))) = calls (eng w) @ xs
        \<and> list_all is_setup_call xs"
  by (simp add: Connection_ctor_def sqlite3_open_def sqlite3_config_log_def
      sqlite3_config_multithread_def sqlite3_busy_handler_def log_call_def Let_def
      split: list.splits prod.splits)

lemma Connection_ctor_frame:
  "caches (snd (Connection_ctor db_name w)) = caches w"
  "connection (snd (Connection_ctor db_name w)) = connection w"
  "prepare_results (eng (snd (Connection_ctor db_name w))) = prepare_results (eng w)"
  "step_results (eng (snd (Connection_ctor db_name w))) = step_results (eng w)"
  "column_counts (eng (snd (Connection_ctor db_name w))) = column_counts (eng w)"
  "current_row (eng (snd (Connection_ctor db_name w))) = current_row (eng w)"
  by (simp_all add: Connection_ctor_def sqlite3_open_def sqlite3_config_log_def
      sqlite3_config_multithread_def sqlite3_busy_handler_def log_call_def Let_def
      split: list.splits prod.splits)

lemma Connection_ctor_not_Rejected: "fst (Connection_ctor db_name w) \<noteq> Rejected"
  by (simp add: Connection_ctor_def Let_def split: prod.splits)

lemma connection_tls_eq:
  "connection_tls db_name w =
     (case connection w of
        Some db \<Rightarrow> (Returns db, w)
      | None \<Rightarrow>
          (case fst (Connection_ctor db_name w) of
             Returns db \<Rightarrow> (Returns db, (snd (Connection_ctor db_name w))\<lparr>connection := Some db\<rparr>)
           | Throws err \<Rightarrow> (Throws err, snd (Connection_ctor db_name w))
           | Rejected \<Rightarrow> (Rejected, snd (Connection_ctor db_name w))))"
  by (simp add: connection_tls_def split: option.splits prod.splits outcome.splits)

lemma connection_tls_log:
  "\<exists>xs. calls (eng (snd (connection_tls db_name w))) = calls (eng w) @ xs
        \<and> list_all is_setup_call xs"
  using Connection_ctor_log [of db_name w]
  by (auto simp: connection_tls_eq split: option.splits outcome.splits)

lemma connection_tls_frame:
  "caches (snd (connection_tls db_name w)) = caches w"
  "prepare_results (eng (snd (connection_tls db_name w))) = prepare_results (eng w)"
  "step_results (eng (snd (connection_tls db_name w))) = step_results (eng w)"
  "column_counts (eng (snd (connection_tls db_name w))) = column_counts (eng w)"
  "current_row (eng (snd (connection_tls db_name w))) = current_row (eng w)"
  by (simp_all add: connection_tls_eq Connection_ctor_frame split: option.splits outcome.splits)

lemma connection_tls_not_Rejected: "fst (connection_tls db_name w) \<noteq> Rejected"
  using Connection_ctor_not_Rejected [of db_name w]
  by (simp add: connection_tls_eq split: option.splits outcome.splits)

lemma singleton_tls_eq:
  "singleton_tls db_name query_str w =
     (case caches w query_str of
        Some c \<Rightarrow> (Returns c, w)
      | None \<Rightarrow>
          (case fst (connection_tls db_name w) of
             Returns db \<Rightarrow>
               (Returns \<lparr>db_handle = db, first_free_stmt = None, other_free_stmts = []\<rparr>,
                (snd (connection_tls db_name w))
                  \<lparr>caches := (caches w)(query_str \<mapsto>
                      \<lparr>db_handle = db, first_free_stmt = None, other_free_stmts = []\<rparr>)\<rparr>)
           | Throws err \<Rightarrow> (Throws err, snd (connection_tls db_name w))
           | Rejected \<Rightarrow> (Rejected, snd (connection_tls db_name w))))"
  using connection_tls_frame(1) [of db_name w]
  by (auto simp: singleton_tls_def Let_def split: option.splits prod.splits outcome.splits)

lemma singleton_tls_log:
  "\<exists>xs. calls (eng (snd (singleton_tls db_name query_str w))) = calls (eng w) @ xs
        \<and> list_all is_setup_call xs"
  using connection_tls_log [of db_name w]
  by (auto simp: singleton_tls_eq split: option.splits outcome.splits)

lemma singleton_tls_frame:
  "prepare_results (eng (snd (singleton_tls db_name query_str w))) = prepare_results (eng w)"
  "step_results (eng (snd (singleton_tls db_name query_str w))) = step_results (eng w)"
  "column_counts (eng (snd (singleton_tls db_name query_str w))) = column_counts (eng w)"
  "current_row (eng (snd (singleton_tls db_name query_str w))) = current_row (eng w)"
  by (simp_all add: singleton_tls_eq connection_tls_frame split: option.splits outcome.splits)

lemma singleton_tls_caches:
  "caches (snd (singleton_tls db_name query_str w)) =
     (case fst (singleton_tls db_name query_str w) of
        Returns c \<Rightarrow> (caches w)(query_str \<mapsto> c)
      | _ \<Rightarrow> caches w)"
  by (auto simp: singleton_tls_eq connection_tls_frame split: option.splits outcome.splits)

lemma singleton_tls_Returns:
  "fst (singleton_tls db_name query_str w) = Returns c \<Longrightarrow>
   caches w query_str = Some c
   \<or> caches w query_str = None \<and> first_free_stmt c = None \<and> other_free_stmts c = []"
  by (auto simp: singleton_tls_eq split: option.splits outcome.splits)

lemma singleton_tls_not_Rejected: "fst (singleton_tls db_name query_str w) \<noteq> Rejected"
  using connection_tls_not_Rejected [of db_name w]
  by (simp add: singleton_tls_eq split: option.splits outcome.splits)

lemma singleton_tls_Throws:
  "fst (singleton_tls db_name query_str w) = Throws err \<Longrightarrow> caches w query_str = None"
  by (auto simp: singleton_tls_eq split: option.splits outcome.splits)


lemma query_Some:
  fixes reg :: "'u serialize_registry"
  assumes "query reg db_name query_str bind_args w = Some r"
  shows "\<exists>args' :: 'u val list. r = query_bound db_name query_str args' w"
proof (rule query.raw_induct
        [where P = "\<lambda>(reg :: 'u serialize_registry) db_name query_str bind_args w r.
                      \<exists>args' :: 'u val list. r = query_bound db_name query_str args' w",
         OF _ assms])
  fix q :: "'u serialize_registry \<Rightarrow> string \<Rightarrow> string \<Rightarrow> 'u val list \<Rightarrow> world
              \<Rightarrow> (QueryResult outcome \<times> world) option"
    and reg db_name query_str bind_args w y
  assume ih: "\<And>reg db_name query_str bind_args w y.
                q reg db_name query_str bind_args w = Some y \<Longrightarrow>
                \<exists>args' :: 'u val list. y = query_bound db_name query_str args' w"
    and eq: "(if list_ex (\<lambda>a. user_serialize_fn reg (type_of a) \<noteq> None) bind_args
              then q reg db_name query_str (map (maybe_serialize reg) bind_args) w
              else Some (query_bound db_name query_str bind_args w)) = Some y"
  show "\<exists>args' :: 'u val list. y = query_bound db_name query_str args' w"
  proof (cases "list_ex (\<lambda>a. user_serialize_fn reg (type_of a) \<noteq> None) bind_args")
    case True
    with eq have "q reg db_name query_str (map (maybe_serialize reg) bind_args) w = Some y"
      by simp
    then show ?thesis by (rule ih)
  next
    case False
    with eq have "y = query_bound db_name query_str bind_args w" by simp
    then show ?thesis by blast
  qed
qed

lemma query_no_converter:
  "\<not> list_ex (\<lambda>a. user_serialize_fn reg (type_of a) \<noteq> None) bind_args \<Longrightarrow>
   query reg db_name query_str bind_args w = Some (query_bound db_name query_str bind_args w)"
  by (subst query.simps) simp

lemma prepared_stmts_append:
  "prepared_stmts q (xs @ ys) = prepared_stmts q xs @ prepared_stmts q ys"
  by (induction q xs rule: prepared_stmts.induct) auto

lemma prepared_stmts_no_prepare:
  "list_all (\<lambda>c. \<not> is_prepare c) xs \<Longrightarrow> prepared_stmts q xs = []"
  by (induction q xs rule: prepared_stmts.induct) auto

lemma setup_not_prepare: "list_all is_setup_call xs \<Longrightarrow> list_all (\<lambda>c. \<not> is_prepare c) xs"
proof (induction xs)
  case Nil
  then show ?case by simp
next
  case (Cons c xs)
  then show ?case by (cases c) auto
qed

lemma setup_not_step: "list_all is_setup_call xs \<Longrightarrow> filter is_step xs = []"
proof (induction xs)
  case Nil
  then show ?case by simp
next
  case (Cons c xs)
  then show ?case by (cases c) auto
qed

lemma singleton_tls_prepared:
  "prepared_stmts q (calls (eng (snd (singleton_tls db_name query_str w))))
     = prepared_stmts q (calls (eng w))"
  using singleton_tls_log [of db_name query_str w]
  by (auto simp: prepared_stmts_append prepared_stmts_no_prepare setup_not_prepare)

lemma singleton_tls_steps:
  "filter is_step (calls (eng (snd (singleton_tls db_name query_str w))))
     = filter is_step (calls (eng w))"
  using singleton_tls_log [of db_name query_str w]
  by (auto simp: setup_not_step)

lemma singleton_tls_idle:
  "idle_stmts q (snd (singleton_tls db_name query_str w)) = idle_stmts q w"
  using singleton_tls_Returns [of db_name query_str w]
  by (auto simp: idle_stmts_def singleton_tls_caches split: outcome.splits option.splits)

lemma singleton_tls_consistent:
  "cache_consistent q (snd (singleton_tls db_name query_str w)) = cache_consistent q w"
  by (simp add: cache_consistent_def singleton_tls_idle singleton_tls_prepared)

lemma get_tls_eq:
  "get_tls db_name query_str w =
     (case fst (singleton_tls db_name query_str w) of
        Returns c \<Rightarrow>
          (fst (internal_get query_str c (eng (snd (singleton_tls db_name query_str w)))),
           (snd (singleton_tls db_name query_str w))
             \<lparr>eng := snd (snd (internal_get query_str c
                        (eng (snd (singleton_tls db_name query_str w))))),
              caches := (caches (snd (singleton_tls db_name query_str w)))
                 (query_str \<mapsto> fst (snd (internal_get query_str c
                        (eng (snd (singleton_tls db_name query_str w))))))\<rparr>)
      | Throws err \<Rightarrow> (Throws err, snd (singleton_tls db_name query_str w))
      | Rejected \<Rightarrow> (Rejected, snd (singleton_tls db_name query_str w)))"
  by (simp add: get_tls_def split: prod.splits outcome.splits)

lemma internal_get_steps:
  "filter is_step (calls (snd (snd (internal_get query_str c e)))) = filter is_step (calls e)"
  by (simp add: internal_get_def sqlite3_prepare_v3_def log_call_def Let_def
      split: list.splits prod.splits)

lemma internal_get_frame:
  "step_results (snd (snd (internal_get query_str c e))) = step_results e"
  "current_row (snd (snd (internal_get query_str c e))) = current_row e"
  by (simp_all add: internal_get_def sqlite3_prepare_v3_def log_call_def Let_def
      split: list.splits prod.splits)

lemma internal_get_not_Rejected: "fst (internal_get query_str c e) \<noteq> Rejected"
  by (simp add: internal_get_def Let_def split: prod.splits)

lemma get_tls_steps: "step_calls (snd (get_tls db_name query_str w)) = step_calls w"
  by (simp add: get_tls_eq step_calls_def internal_get_steps singleton_tls_steps
      split: outcome.splits)

lemma get_tls_not_Rejected: "fst (get_tls db_name query_str w) \<noteq> Rejected"
  using singleton_tls_not_Rejected [of db_name query_str w] internal_get_not_Rejected
  by (simp add: get_tls_eq split: outcome.splits)

lemma query_bound_Returns:
  assumes "query_bound db_name query_str bind_args w = (Returns qr, w')"
  shows "list_all (\<lambda>a. bindable (type_of a)) bind_args"
    and "get_tls db_name query_str w = (Returns (stmt qr), snd (get_tls db_name query_str w))"
    and "qr = \<lparr>stmt = stmt qr, put_cb = query_str,
                ret = fst (sqlite3_step (stmt qr) (eng (snd (get_tls db_name query_str w)))),
                first_invocation = True\<rparr>"
    and "w' = (snd (get_tls db_name query_str w))
               \<lparr>eng := snd (sqlite3_step (stmt qr)
                   (snd (fold (bind_dispatcher (stmt qr)) bind_args
                      (1, eng (snd (get_tls db_name query_str w))))))\<rparr>"
proof -
  show b: "list_all (\<lambda>a. bindable (type_of a)) bind_args"
    using assms by (auto simp: query_bound_def split: if_splits)
  obtain r w1 where g: "get_tls db_name query_str w = (r, w1)"
    by fastforce
  from assms b g obtain s where r: "r = Returns s"
    by (cases r) (auto simp: query_bound_def)
  define bs where "bs = map2 (spec_bind_call s) [1 ..< 1 + length bind_args] bind_args"
  have "fold (bind_dispatcher s) bind_args (1, eng w1)
          = (1 + length bind_args, (eng w1)\<lparr>calls := calls (eng w1) @ bs\<rparr>)"
    unfolding bs_def by (rule fold_bind_dispatcher [OF b])
  then have f: "fold (bind_dispatcher s) bind_args (Suc 0, eng w1)
          = (Suc (length bind_args), (eng w1)\<lparr>calls := calls (eng w1) @ bs\<rparr>)"
    by simp
  from assms b g r f have s: "stmt qr = s"
    by (auto simp: query_bound_def QueryResult_ctor_def split: prod.splits)
  from g r s show "get_tls db_name query_str w = (Returns (stmt qr), snd (get_tls db_name query_str w))"
    by simp
  from assms b g r f s show "qr = \<lparr>stmt = stmt qr, put_cb = query_str,
                ret = fst (sqlite3_step (stmt qr) (eng (snd (get_tls db_name query_str w)))),
                first_invocation = True\<rparr>"
    by (auto simp: query_bound_def QueryResult_ctor_def sqlite3_step_def log_call_def
        split: prod.splits list.splits)
  from assms b g r f s show "w' = (snd (get_tls db_name query_str w))
               \<lparr>eng := snd (sqlite3_step (stmt qr)
                   (snd (fold (bind_dispatcher (stmt qr)) bind_args
                      (1, eng (snd (get_tls db_name query_str w))))))\<rparr>"
    by (auto simp: query_bound_def QueryResult_ctor_def split: prod.splits)
qed

lemma step_calls_fold_bind:
  "list_all (\<lambda>a. bindable (type_of a)) bind_args \<Longrightarrow>
   filter is_step (calls (snd (fold (bind_dispatcher st) bind_args (idx, e)))) = filter is_step (calls e)"
proof (induction bind_args arbitrary: idx e)
  case Nil
  then show ?case by simp
next
  case (Cons a bind_args)
  have "is_step (spec_bind_call st idx a) = False"
    using Cons.prems by (induction st idx a rule: spec_bind_call.induct) auto
  with Cons show ?case
    by (simp add: bind_dispatcher_spec log_call_def)
qed

lemma sqlite3_step_calls: "calls (snd (sqlite3_step st e)) = calls e @ [Step st]"
  by (simp add: sqlite3_step_def log_call_def split: list.splits)

subsection \<open>When the statement is stepped\<close>

text \<open>
  Claim C2, as amended. A query that returns a cursor has stepped the statement exactly
  once, as its last engine call, while constructing the cursor, which starts with
  \<open>first_invocation\<close> set and holds the code that step answered. An advance of a cursor
  with \<open>first_invocation\<close> set leaves the state as it is (it makes no engine call) and
  keeps the result code the cursor holds; when it passes the column-count guard it
  returns true exactly when that retained code is \<open>SQLITE_ROW\<close>. An advance of a cursor
  with \<open>first_invocation\<close> cleared that passes the guard steps the statement exactly once,
  keeps the code of that step and returns true exactly when it is \<open>SQLITE_ROW\<close>.
  \<open>first_invocation\<close> is cleared by an advance that returns true, and by nothing else.
\<close>

theorem cursor_stepping_schedule:
  "(query_bound db_name query_str bind_args w = (Returns qr, w') \<longrightarrow>
      first_invocation qr
      \<and> step_calls w' = step_calls w @ [Step (stmt qr)]
      \<and> last (calls (eng w')) = Step (stmt qr)
      \<and> ret qr = fst (sqlite3_step (stmt qr) (eng (snd (get_tls db_name query_str w)))))
   \<and> (first_invocation qr \<longrightarrow>
        snd (snd (snd (advance user_deserialize_fn outs qr w))) = w
        \<and> ret (fst (snd (snd (advance user_deserialize_fn outs qr w)))) = ret qr)
   \<and> (first_invocation qr \<and> length outs \<le> sqlite3_column_count (eng w) (stmt qr) \<longrightarrow>
        fst (advance user_deserialize_fn outs qr w) = Returns (ret qr = SQLITE_ROW))
   \<and> (\<not> first_invocation qr \<and> length outs \<le> sqlite3_column_count (eng w) (stmt qr) \<longrightarrow>
        calls (eng (snd (snd (snd (advance user_deserialize_fn outs qr w)))))
          = calls (eng w) @ [Step (stmt qr)]
        \<and> ret (fst (snd (snd (advance user_deserialize_fn outs qr w))))
          = fst (sqlite3_step (stmt qr) (eng w))
        \<and> fst (advance user_deserialize_fn outs qr w)
          = Returns (fst (sqlite3_step (stmt qr) (eng w)) = SQLITE_ROW))
   \<and> first_invocation (fst (snd (snd (advance user_deserialize_fn outs qr w))))
       = (first_invocation qr \<and> fst (advance user_deserialize_fn outs qr w) \<noteq> Returns True)"
proof (intro conjI impI)
  assume q: "query_bound db_name query_str bind_args w = (Returns qr, w')"
  note r = query_bound_Returns [OF q]
  show "first_invocation qr"
    by (subst r(3)) simp
  have "step_calls w' = step_calls (snd (get_tls db_name query_str w)) @ [Step (stmt qr)]"
    by (subst r(4)) (simp add: step_calls_def sqlite3_step_calls step_calls_fold_bind [OF r(1)])
  then show "step_calls w' = step_calls w @ [Step (stmt qr)]"
    by (simp add: get_tls_steps)
  show "last (calls (eng w')) = Step (stmt qr)"
    by (subst r(4)) (simp add: sqlite3_step_calls)
  show "ret qr = fst (sqlite3_step (stmt qr) (eng (snd (get_tls db_name query_str w))))"
    by (subst r(3)) simp
next
  assume f: "first_invocation qr"
  then show "snd (snd (snd (advance user_deserialize_fn outs qr w))) = w"
    by (simp add: advance_def Let_def split: prod.splits)
  from f show "ret (fst (snd (snd (advance user_deserialize_fn outs qr w)))) = ret qr"
    by (simp add: advance_def Let_def split: prod.splits)
next
  assume "first_invocation qr \<and> length outs \<le> sqlite3_column_count (eng w) (stmt qr)"
  then show "fst (advance user_deserialize_fn outs qr w) = Returns (ret qr = SQLITE_ROW)"
    by (auto simp: advance_def Let_def split: prod.splits)
next
  assume h: "\<not> first_invocation qr \<and> length outs \<le> sqlite3_column_count (eng w) (stmt qr)"
  then show "calls (eng (snd (snd (snd (advance user_deserialize_fn outs qr w)))))
          = calls (eng w) @ [Step (stmt qr)]"
    using sqlite3_step_calls [of "stmt qr" "eng w"]
    by (auto simp: advance_def Let_def split: prod.splits)
  from h show "ret (fst (snd (snd (advance user_deserialize_fn outs qr w))))
          = fst (sqlite3_step (stmt qr) (eng w))"
    by (auto simp: advance_def Let_def split: prod.splits)
  from h show "fst (advance user_deserialize_fn outs qr w)
          = Returns (fst (sqlite3_step (stmt qr) (eng w)) = SQLITE_ROW)"
    by (auto simp: advance_def Let_def split: prod.splits)
next
  show "first_invocation (fst (snd (snd (advance user_deserialize_fn outs qr w))))
       = (first_invocation qr \<and> fst (advance user_deserialize_fn outs qr w) \<noteq> Returns True)"
    by (auto simp: advance_def Let_def split: prod.splits)
qed


lemma example_query_eq: "example_query = (Returns example_cursor, snd example_query)"
  using example_query_calls by (simp add: prod_eq_iff)

lemma example_first_advance:
  "advance no_deserializers example_outputs example_cursor (snd example_query)
     = (Returns True, [VIntegral (ISigned 32) 1, VString ''hello''],
        example_cursor\<lparr>first_invocation := False\<rparr>, snd example_query)"
  by (simp add: advance_def all_defs)

theorem cursor_stepping_schedule_witness:
  "query_bound ''example.db'' select_query [VIntegral (ISigned 32) 1 :: unit val] example_world
     = (Returns example_cursor, snd example_query)
   \<and> first_invocation example_cursor
   \<and> step_calls (snd example_query) = step_calls example_world @ [Step (Some 1)]
   \<and> ret example_cursor
       = fst (sqlite3_step (Some 1)
                (eng (snd (get_tls ''example.db'' select_query example_world))))
   \<and> snd (snd (snd (advance no_deserializers example_outputs example_cursor (snd example_query))))
       = snd example_query
   \<and> ret (fst (snd (snd (advance no_deserializers example_outputs example_cursor
                 (snd example_query)))))
       = SQLITE_ROW
   \<and> fst (advance no_deserializers example_outputs example_cursor (snd example_query))
       = Returns True
   \<and> \<not> first_invocation (example_cursor\<lparr>first_invocation := False\<rparr>)
   \<and> length example_outputs \<le> sqlite3_column_count (eng (snd example_query)) (Some 1)
   \<and> calls (eng (snd (snd (snd (advance no_deserializers example_outputs
                 (example_cursor\<lparr>first_invocation := False\<rparr>) (snd example_query))))))
       = calls (eng (snd example_query)) @ [Step (Some 1)]
   \<and> ret (fst (snd (snd (advance no_deserializers example_outputs
                 (example_cursor\<lparr>first_invocation := False\<rparr>) (snd example_query)))))
       = SQLITE_DONE
   \<and> fst (advance no_deserializers example_outputs
                 (example_cursor\<lparr>first_invocation := False\<rparr>) (snd example_query))
       = Returns False"
proof -
  have q: "query_bound ''example.db'' select_query [VIntegral (ISigned 32) 1 :: unit val] example_world
     = (Returns example_cursor, snd example_query)"
    using example_query_eq by (simp add: example_query_def)
  have f: "first_invocation example_cursor" "stmt example_cursor = Some 1"
    by (simp_all add: example_cursor_def)
  have c: "length example_outputs \<le> sqlite3_column_count (eng (snd example_query)) (Some 1)"
    by (simp add: all_defs)
  note t1 = cursor_stepping_schedule [of "''example.db''" select_query
        "[VIntegral (ISigned 32) 1 :: unit val]" example_world example_cursor "snd example_query"
        no_deserializers example_outputs]
  note t2 = cursor_stepping_schedule [of "''example.db''" select_query
        "[VIntegral (ISigned 32) 1 :: unit val]" "snd example_query" example_cursor
        "snd example_query" no_deserializers example_outputs]
  note t3 = cursor_stepping_schedule [of "''example.db''" select_query
        "[VIntegral (ISigned 32) 1 :: unit val]" "snd example_query"
        "example_cursor\<lparr>first_invocation := False\<rparr>" "snd example_query"
        no_deserializers example_outputs]
  have n: "\<not> first_invocation (example_cursor\<lparr>first_invocation := False\<rparr>)"
    "stmt (example_cursor\<lparr>first_invocation := False\<rparr>) = Some 1"
    by (simp_all add: example_cursor_def)
  have rr: "ret example_cursor = SQLITE_ROW"
    "ret (example_cursor\<lparr>first_invocation := False\<rparr>) = SQLITE_ROW"
    by (simp_all add: example_cursor_def)
  have sd: "fst (sqlite3_step (Some 1) (eng (snd example_query))) = SQLITE_DONE"
    by (simp add: all_defs)
  from t1 q have a: "step_calls (snd example_query) = step_calls example_world @ [Step (stmt example_cursor)]"
    and a2: "ret example_cursor
       = fst (sqlite3_step (stmt example_cursor)
                (eng (snd (get_tls ''example.db'' select_query example_world))))"
    by blast+
  from t2 f(1) have b: "snd (snd (snd (advance no_deserializers example_outputs example_cursor
      (snd example_query)))) = snd example_query"
    and b2: "ret (fst (snd (snd (advance no_deserializers example_outputs example_cursor
                 (snd example_query))))) = ret example_cursor"
    by blast+
  have c': "length example_outputs
      \<le> sqlite3_column_count (eng (snd example_query)) (stmt example_cursor)"
    using c by (simp only: f(2))
  from t2 f(1) c' have b3: "fst (advance no_deserializers example_outputs example_cursor
      (snd example_query)) = Returns (ret example_cursor = SQLITE_ROW)"
    by blast
  have c'': "length example_outputs
      \<le> sqlite3_column_count (eng (snd example_query))
           (stmt (example_cursor\<lparr>first_invocation := False\<rparr>))"
    using c by (simp only: n(2))
  from t3 n(1) c''
  have d: "calls (eng (snd (snd (snd (advance no_deserializers example_outputs
                 (example_cursor\<lparr>first_invocation := False\<rparr>) (snd example_query))))))
       = calls (eng (snd example_query))
         @ [Step (stmt (example_cursor\<lparr>first_invocation := False\<rparr>))]"
    and d2: "ret (fst (snd (snd (advance no_deserializers example_outputs
                 (example_cursor\<lparr>first_invocation := False\<rparr>) (snd example_query)))))
       = fst (sqlite3_step (stmt (example_cursor\<lparr>first_invocation := False\<rparr>))
                (eng (snd example_query)))"
    and d3: "fst (advance no_deserializers example_outputs
                 (example_cursor\<lparr>first_invocation := False\<rparr>) (snd example_query))
       = Returns (fst (sqlite3_step (stmt (example_cursor\<lparr>first_invocation := False\<rparr>))
                (eng (snd example_query))) = SQLITE_ROW)"
    by blast+
  have a': "step_calls (snd example_query) = step_calls example_world @ [Step (Some 1)]"
    using a by (simp only: f(2))
  have a2': "ret example_cursor
       = fst (sqlite3_step (Some 1)
                (eng (snd (get_tls ''example.db'' select_query example_world))))"
    using a2 by (simp only: f(2))
  have b2': "ret (fst (snd (snd (advance no_deserializers example_outputs example_cursor
                 (snd example_query))))) = SQLITE_ROW"
    using b2 by (simp only: rr(1))
  have b3': "fst (advance no_deserializers example_outputs example_cursor
      (snd example_query)) = Returns True"
    using b3 unfolding rr(1) by simp
  have d': "calls (eng (snd (snd (snd (advance no_deserializers example_outputs
                 (example_cursor\<lparr>first_invocation := False\<rparr>) (snd example_query))))))
       = calls (eng (snd example_query)) @ [Step (Some 1)]"
    using d by (simp only: n(2))
  have d2': "ret (fst (snd (snd (advance no_deserializers example_outputs
                 (example_cursor\<lparr>first_invocation := False\<rparr>) (snd example_query)))))
       = SQLITE_DONE"
    using d2 by (simp only: n(2) sd)
  have d3': "fst (advance no_deserializers example_outputs
                 (example_cursor\<lparr>first_invocation := False\<rparr>) (snd example_query))
       = Returns False"
    using d3 unfolding n(2) sd by simp
  from q f(1) a' a2' b b2' b3' n(1) c d' d2' d3' show ?thesis
    by blast
qed

text \<open>
  Claim C2 as stated fails on the end-to-end example: the statement has been stepped when
  \<open>query\<close> returns, before any advance, and the first advance, which delivers the row,
  adds no step.
\<close>

theorem step_before_first_advance_counterexample:
  "fst example_query = Returns example_cursor
   \<and> step_calls (snd example_query) = [Step (Some 1)]
   \<and> step_calls (snd (snd (snd (advance no_deserializers example_outputs example_cursor
                                    (snd example_query))))) = [Step (Some 1)]
   \<and> fst (advance no_deserializers example_outputs example_cursor (snd example_query))
       = Returns True"
  using example_query_calls by (simp add: example_first_advance step_calls_def)

subsection \<open>A cursor that has run out of rows\<close>

lemma advances_no_row:
  "first_invocation qr \<Longrightarrow> ret qr \<noteq> SQLITE_ROW \<Longrightarrow>
   list_all (\<lambda>outs. length outs \<le> sqlite3_column_count (eng w) (stmt qr)) outs_list \<Longrightarrow>
   advances user_deserialize_fn outs_list qr w
     = (replicate (length outs_list) (Returns False), qr, w)"
  by (induction outs_list) (auto simp: advance_def Let_def)

text \<open>
  Claim C3, as amended. An advance that passes the guard and leaves a result code other
  than \<open>SQLITE_ROW\<close> on the cursor returns false and assigns to no output reference. A
  cursor that has not delivered a row and holds such a code (a query that matched no row)
  returns false on every further advance that passes the guard, with the cursor and the
  state unchanged. A cursor that has delivered a row steps the statement again on each
  advance, keeps the code of that step and returns true exactly when it is \<open>SQLITE_ROW\<close>.
\<close>

theorem cursor_exhaustion:
  "(length outs \<le> sqlite3_column_count (eng w) (stmt qr)
      \<and> resultCode (fst (snd (snd (advance user_deserialize_fn outs qr w)))) \<noteq> SQLITE_ROW \<longrightarrow>
      fst (advance user_deserialize_fn outs qr w) = Returns False
      \<and> fst (snd (advance user_deserialize_fn outs qr w)) = map snd outs)
   \<and> (first_invocation qr \<and> resultCode qr \<noteq> SQLITE_ROW
      \<and> list_all (\<lambda>outs. length outs \<le> sqlite3_column_count (eng w) (stmt qr)) outs_list \<longrightarrow>
      advances user_deserialize_fn outs_list qr w
        = (replicate (length outs_list) (Returns False), qr, w))
   \<and> (\<not> first_invocation qr \<and> length outs \<le> sqlite3_column_count (eng w) (stmt qr) \<longrightarrow>
      resultCode (fst (snd (snd (advance user_deserialize_fn outs qr w))))
        = fst (sqlite3_step (stmt qr) (eng w))
      \<and> fst (advance user_deserialize_fn outs qr w)
        = Returns (fst (sqlite3_step (stmt qr) (eng w)) = SQLITE_ROW))"
proof (intro conjI impI)
  assume "length outs \<le> sqlite3_column_count (eng w) (stmt qr)
      \<and> resultCode (fst (snd (snd (advance user_deserialize_fn outs qr w)))) \<noteq> SQLITE_ROW"
  then show "fst (advance user_deserialize_fn outs qr w) = Returns False"
    and "fst (snd (advance user_deserialize_fn outs qr w)) = map snd outs"
    by (auto simp: advance_def resultCode_def Let_def split: prod.splits if_splits)
next
  assume "first_invocation qr \<and> resultCode qr \<noteq> SQLITE_ROW
      \<and> list_all (\<lambda>outs. length outs \<le> sqlite3_column_count (eng w) (stmt qr)) outs_list"
  then show "advances user_deserialize_fn outs_list qr w
        = (replicate (length outs_list) (Returns False), qr, w)"
    by (simp add: advances_no_row resultCode_def)
next
  assume "\<not> first_invocation qr \<and> length outs \<le> sqlite3_column_count (eng w) (stmt qr)"
  then show "resultCode (fst (snd (snd (advance user_deserialize_fn outs qr w))))
        = fst (sqlite3_step (stmt qr) (eng w))"
    and "fst (advance user_deserialize_fn outs qr w)
        = Returns (fst (sqlite3_step (stmt qr) (eng w)) = SQLITE_ROW)"
    by (auto simp: advance_def resultCode_def Let_def split: prod.splits)
qed

text \<open>
  Claim C3 as stated fails on the end-to-end example: the first advance delivers the row,
  the second reports no row, and the third steps the statement again and delivers a row.
\<close>

theorem exhausted_cursor_counterexample:
  "fst example_query = Returns example_cursor
   \<and> fst (advances no_deserializers [example_outputs, example_outputs, example_outputs]
            example_cursor (snd example_query))
       = [Returns True, Returns False, Returns True]"
  using example_query_calls by (simp add: example_first_advance advance_def all_defs)



theorem cursor_exhaustion_witness:
  "length example_outputs \<le> sqlite3_column_count (eng (snd example_query)) (Some 1)
   \<and> \<not> first_invocation (example_cursor\<lparr>first_invocation := False\<rparr>)
   \<and> resultCode (fst (snd (snd (advance no_deserializers example_outputs
         (example_cursor\<lparr>first_invocation := False\<rparr>) (snd example_query))))) = SQLITE_DONE
   \<and> fst (advance no_deserializers example_outputs
         (example_cursor\<lparr>first_invocation := False\<rparr>) (snd example_query)) = Returns False
   \<and> fst (snd (advance no_deserializers example_outputs
         (example_cursor\<lparr>first_invocation := False\<rparr>) (snd example_query)))
       = [VIntegral (ISigned 32) 0, VString []]
   \<and> first_invocation (example_cursor\<lparr>ret := SQLITE_DONE\<rparr>)
   \<and> resultCode (example_cursor\<lparr>ret := SQLITE_DONE\<rparr>) \<noteq> SQLITE_ROW
   \<and> advances no_deserializers [example_outputs, [], example_outputs]
         (example_cursor\<lparr>ret := SQLITE_DONE\<rparr>) (snd example_query)
       = ([Returns False, Returns False, Returns False],
          example_cursor\<lparr>ret := SQLITE_DONE\<rparr>, snd example_query)"
proof -
  have c: "length example_outputs \<le> sqlite3_column_count (eng (snd example_query)) (Some 1)"
    by (simp add: all_defs)
  have l: "list_all (\<lambda>outs. length outs \<le> sqlite3_column_count (eng (snd example_query)) (Some 1))
             [example_outputs, [], example_outputs]"
    using c by simp
  have s: "fst (sqlite3_step (Some 1) (eng (snd example_query))) = SQLITE_DONE"
    by (simp add: all_defs)
  have f: "stmt example_cursor = Some 1" "first_invocation example_cursor"
    by (simp_all add: example_cursor_def)
  show ?thesis
    using c l s f
      cursor_exhaustion [of example_outputs "snd example_query"
        "example_cursor\<lparr>first_invocation := False\<rparr>" no_deserializers
        "[example_outputs, [], example_outputs]"]
      cursor_exhaustion [of example_outputs "snd example_query"
        "example_cursor\<lparr>ret := SQLITE_DONE\<rparr>" no_deserializers
        "[example_outputs, [], example_outputs]"]
    by (simp add: resultCode_def example_outputs_def)
qed

subsection \<open>Reuse of prepared statements\<close>

lemma idle_singleton:
  assumes "xs @ ys = map Some ps" "length ps \<le> 1" "ys \<noteq> []"
  shows "xs = []"
proof (cases ps)
  case Nil
  with assms show ?thesis by simp
next
  case (Cons p ps')
  with assms have "ps' = []" by simp
  with Cons assms show ?thesis by (cases xs) auto
qed

lemma internal_get_consistent:
  assumes c: "caches w query_str = Some c"
    and inv: "cache_consistent query_str w"
    and w1: "w1 = w\<lparr>eng := snd (snd (internal_get query_str c (eng w))),
                     caches := (caches w)(query_str \<mapsto> fst (snd (internal_get query_str c (eng w))))\<rparr>"
  shows "case fst (internal_get query_str c (eng w)) of
           Returns st \<Rightarrow> checked_out query_str st w1
         | _ \<Rightarrow> cache_consistent query_str w1"
proof -
  let ?ps = "prepared_stmts query_str (calls (eng w))"
  from c inv have idle: "(case first_free_stmt c of None \<Rightarrow> [] | Some h \<Rightarrow> [Some h])
                           @ other_free_stmts c = map Some ?ps"
    and len: "length ?ps \<le> 1"
    by (simp_all add: cache_consistent_def idle_stmts_def)
  show ?thesis
  proof (cases "first_free_stmt c")
    case (Some h)
    with idle len have "other_free_stmts c = []" "?ps = [h]"
      by (cases ?ps; cases "other_free_stmts c"; auto)+
    with Some w1 show ?thesis
      by (simp add: internal_get_def checked_out_def idle_stmts_def)
  next
    case None
    show ?thesis
    proof (cases "other_free_stmts c = []")
      case False
      with None idle len obtain h where "other_free_stmts c = [Some h]" "?ps = [h]"
        by (cases ?ps; cases "other_free_stmts c"; auto)
      with None w1 show ?thesis
        by (simp add: internal_get_def checked_out_def idle_stmts_def)
    next
      case True
      with None idle have "?ps = []" by simp
      with None True w1 show ?thesis
        by (auto simp: internal_get_def checked_out_def cache_consistent_def idle_stmts_def
            sqlite3_prepare_v3_def log_call_def prepared_stmts_append Let_def
            split: list.splits prod.splits option.splits)
    qed
  qed
qed

lemma internal_get_other:
  assumes "q \<noteq> query_str"
    and w1: "w1 = w\<lparr>eng := snd (snd (internal_get query_str c (eng w))),
                     caches := (caches w)(query_str \<mapsto> fst (snd (internal_get query_str c (eng w))))\<rparr>"
  shows "cache_consistent q w1 = cache_consistent q w"
  using assms
  by (auto simp: internal_get_def cache_consistent_def idle_stmts_def
      sqlite3_prepare_v3_def log_call_def prepared_stmts_append Let_def
      split: list.splits prod.splits)


lemma get_tls_consistent:
  assumes "cache_consistent query_str w"
  shows "case fst (get_tls db_name query_str w) of
           Returns st \<Rightarrow> checked_out query_str st (snd (get_tls db_name query_str w))
         | _ \<Rightarrow> cache_consistent query_str (snd (get_tls db_name query_str w))"
proof (cases "fst (singleton_tls db_name query_str w)")
  case (Returns c)
  let ?w0 = "snd (singleton_tls db_name query_str w)"
  have c: "caches ?w0 query_str = Some c"
    using Returns by (simp add: singleton_tls_caches)
  have inv: "cache_consistent query_str ?w0"
    using assms by (simp add: singleton_tls_consistent)
  have g: "fst (get_tls db_name query_str w) = fst (internal_get query_str c (eng ?w0))"
    "snd (get_tls db_name query_str w)
       = ?w0\<lparr>eng := snd (snd (internal_get query_str c (eng ?w0))),
              caches := (caches ?w0)(query_str \<mapsto> fst (snd (internal_get query_str c (eng ?w0))))\<rparr>"
    using Returns by (simp_all add: get_tls_eq)
  show ?thesis
    unfolding g by (rule internal_get_consistent [OF c inv refl])
next
  case (Throws err)
  then show ?thesis
    using assms by (simp add: get_tls_eq singleton_tls_consistent)
next
  case Rejected
  then show ?thesis
    using assms by (simp add: get_tls_eq singleton_tls_consistent)
qed

lemma get_tls_other:
  assumes "q \<noteq> query_str"
  shows "cache_consistent q (snd (get_tls db_name query_str w)) = cache_consistent q w"
proof (cases "fst (singleton_tls db_name query_str w)")
  case (Returns c)
  show ?thesis
    using internal_get_other [OF assms refl, of "snd (singleton_tls db_name query_str w)" c] Returns
    by (simp add: get_tls_eq singleton_tls_consistent)
next
  case (Throws err)
  then show ?thesis
    by (simp add: get_tls_eq singleton_tls_consistent)
next
  case Rejected
  then show ?thesis
    by (simp add: get_tls_eq singleton_tls_consistent)
qed

lemma no_prepare_frame:
  assumes "caches w' = caches w" "calls (eng w') = calls (eng w) @ xs"
    "list_all (\<lambda>c. \<not> is_prepare c) xs"
  shows "cache_consistent q w' = cache_consistent q w"
    and "checked_out q st w' = checked_out q st w"
  using assms
  by (simp_all add: cache_consistent_def checked_out_def idle_stmts_def prepared_stmts_append
      prepared_stmts_no_prepare)

lemma spec_bind_call_not_prepare: "\<not> is_prepare (spec_bind_call st idx a)"
  by (induction st idx a rule: spec_bind_call.induct) auto

lemma binds_not_prepare:
  "list_all (\<lambda>c. \<not> is_prepare c) (map2 (spec_bind_call st) is bind_args)"
  by (simp add: list_all_iff spec_bind_call_not_prepare split: prod.splits)


lemma query_bound_eq:
  "query_bound db_name query_str bind_args w =
     (if \<not> list_all (\<lambda>a. bindable (type_of a)) bind_args then (Rejected, w)
      else
        (case fst (get_tls db_name query_str w) of
           Returns st \<Rightarrow>
             (Returns (fst (QueryResult_ctor st query_str
                        (snd (fold (bind_dispatcher st) bind_args
                               (1, eng (snd (get_tls db_name query_str w))))))),
              (snd (get_tls db_name query_str w))
                \<lparr>eng := snd (QueryResult_ctor st query_str
                        (snd (fold (bind_dispatcher st) bind_args
                               (1, eng (snd (get_tls db_name query_str w))))))\<rparr>)
         | Throws err \<Rightarrow> (Throws err, snd (get_tls db_name query_str w))
         | Rejected \<Rightarrow> (Rejected, snd (get_tls db_name query_str w))))"
  by (simp add: query_bound_def Let_def split: prod.splits outcome.splits)

lemma QueryResult_ctor_eq:
  "fst (QueryResult_ctor st put e)
     = \<lparr>stmt = st, put_cb = put, ret = fst (sqlite3_step st e), first_invocation = True\<rparr>"
  "snd (QueryResult_ctor st put e) = snd (sqlite3_step st e)"
  by (simp_all add: QueryResult_ctor_def split: prod.splits)

lemma query_bound_frame:
  assumes "fst (query_bound db_name query_str bind_args w) = Returns qr"
  shows "caches (snd (query_bound db_name query_str bind_args w))
           = caches (snd (get_tls db_name query_str w))"
    and "\<exists>xs. calls (eng (snd (query_bound db_name query_str bind_args w)))
               = calls (eng (snd (get_tls db_name query_str w))) @ xs
             \<and> list_all (\<lambda>c. \<not> is_prepare c) xs"
    and "fst (get_tls db_name query_str w) = Returns (stmt qr)"
    and "put_cb qr = query_str"
proof -
  have b: "list_all (\<lambda>a. bindable (type_of a)) bind_args"
    using assms by (auto simp: query_bound_eq split: if_splits)
  obtain st where g: "fst (get_tls db_name query_str w) = Returns st"
    using assms b by (cases "fst (get_tls db_name query_str w)") (auto simp: query_bound_eq)
  from assms b g show "fst (get_tls db_name query_str w) = Returns (stmt qr)"
    and "put_cb qr = query_str"
    by (auto simp: query_bound_eq QueryResult_ctor_eq)
  from b g show "caches (snd (query_bound db_name query_str bind_args w))
           = caches (snd (get_tls db_name query_str w))"
    by (simp add: query_bound_eq)
  define bs where "bs = map2 (spec_bind_call st) [1 ..< 1 + length bind_args] bind_args"
  have "fold (bind_dispatcher st) bind_args (1, eng (snd (get_tls db_name query_str w)))
          = (1 + length bind_args,
             (eng (snd (get_tls db_name query_str w)))
               \<lparr>calls := calls (eng (snd (get_tls db_name query_str w))) @ bs\<rparr>)"
    unfolding bs_def by (rule fold_bind_dispatcher [OF b])
  then have f: "calls (snd (fold (bind_dispatcher st) bind_args
                   (Suc 0, eng (snd (get_tls db_name query_str w)))))
      = calls (eng (snd (get_tls db_name query_str w))) @ bs"
    by simp
  have "calls (eng (snd (query_bound db_name query_str bind_args w)))
          = calls (eng (snd (get_tls db_name query_str w))) @ (bs @ [Step st])"
    using b g f by (simp add: query_bound_eq QueryResult_ctor_eq sqlite3_step_calls)
  moreover have "list_all (\<lambda>c. \<not> is_prepare c) (bs @ [Step st])"
    unfolding bs_def
    using binds_not_prepare [of st "[1 ..< 1 + length bind_args]" bind_args] by simp
  ultimately show "\<exists>xs. calls (eng (snd (query_bound db_name query_str bind_args w)))
               = calls (eng (snd (get_tls db_name query_str w))) @ xs
             \<and> list_all (\<lambda>c. \<not> is_prepare c) xs"
    by blast
qed

lemma query_bound_consistent:
  assumes "cache_consistent query_str w"
  shows "case fst (query_bound db_name query_str bind_args w) of
           Returns qr \<Rightarrow>
             checked_out query_str (stmt qr) (snd (query_bound db_name query_str bind_args w))
             \<and> put_cb qr = query_str
         | _ \<Rightarrow> cache_consistent query_str (snd (query_bound db_name query_str bind_args w))"
proof (cases "fst (query_bound db_name query_str bind_args w)")
  case (Returns qr)
  note f = query_bound_frame [OF Returns]
  from f(2) obtain xs where xs: "calls (eng (snd (query_bound db_name query_str bind_args w)))
               = calls (eng (snd (get_tls db_name query_str w))) @ xs"
     "list_all (\<lambda>c. \<not> is_prepare c) xs"
    by blast
  have "checked_out query_str (stmt qr) (snd (get_tls db_name query_str w))"
    using get_tls_consistent [OF assms, of db_name] f(3) by simp
  then have "checked_out query_str (stmt qr) (snd (query_bound db_name query_str bind_args w))"
    by (simp add: no_prepare_frame(2) [OF f(1) xs])
  with Returns f(4) show ?thesis by simp
next
  case (Throws err)
  then have "snd (query_bound db_name query_str bind_args w) = snd (get_tls db_name query_str w)"
    "fst (get_tls db_name query_str w) = Throws err"
    by (auto simp: query_bound_eq split: if_splits outcome.splits)
  with Throws get_tls_consistent [OF assms, of db_name] show ?thesis by simp
next
  case Rejected
  then have "snd (query_bound db_name query_str bind_args w) = w"
    using get_tls_not_Rejected [of db_name query_str w]
    by (auto simp: query_bound_eq split: if_splits outcome.splits)
  with Rejected assms show ?thesis by simp
qed

lemma query_bound_other:
  assumes "q \<noteq> query_str"
  shows "cache_consistent q (snd (query_bound db_name query_str bind_args w)) = cache_consistent q w"
proof (cases "fst (query_bound db_name query_str bind_args w)")
  case (Returns qr)
  note f = query_bound_frame [OF Returns]
  from f(2) obtain xs where xs: "calls (eng (snd (query_bound db_name query_str bind_args w)))
               = calls (eng (snd (get_tls db_name query_str w))) @ xs"
     "list_all (\<lambda>c. \<not> is_prepare c) xs"
    by blast
  show ?thesis
    by (simp add: no_prepare_frame(1) [OF f(1) xs] get_tls_other [OF assms])
next
  case (Throws err)
  then have "snd (query_bound db_name query_str bind_args w) = snd (get_tls db_name query_str w)"
    by (auto simp: query_bound_eq split: if_splits outcome.splits)
  then show ?thesis by (simp add: get_tls_other [OF assms])
next
  case Rejected
  then have "snd (query_bound db_name query_str bind_args w) = w"
    using get_tls_not_Rejected [of db_name query_str w]
    by (auto simp: query_bound_eq split: if_splits outcome.splits)
  then show ?thesis by simp
qed


lemma advance_frame:
  "caches (snd (snd (snd (advance user_deserialize_fn outs qr w)))) = caches w"
  "\<exists>xs. calls (eng (snd (snd (snd (advance user_deserialize_fn outs qr w)))))
          = calls (eng w) @ xs \<and> list_all (\<lambda>c. \<not> is_prepare c) xs"
  "stmt (fst (snd (snd (advance user_deserialize_fn outs qr w)))) = stmt qr"
  "put_cb (fst (snd (snd (advance user_deserialize_fn outs qr w)))) = put_cb qr"
  using sqlite3_step_calls [of "stmt qr" "eng w"]
  by (auto simp: advance_def Let_def split: prod.splits)

lemma advance_preserves:
  "cache_consistent q (snd (snd (snd (advance user_deserialize_fn outs qr w))))
     = cache_consistent q w"
  "checked_out q st (snd (snd (snd (advance user_deserialize_fn outs qr w))))
     = checked_out q st w"
proof -
  obtain xs where xs: "calls (eng (snd (snd (snd (advance user_deserialize_fn outs qr w)))))
          = calls (eng w) @ xs" "list_all (\<lambda>c. \<not> is_prepare c) xs"
    using advance_frame(2) [of user_deserialize_fn outs qr w] by blast
  show "cache_consistent q (snd (snd (snd (advance user_deserialize_fn outs qr w))))
     = cache_consistent q w"
    by (rule no_prepare_frame(1) [OF advance_frame(1) xs])
  show "checked_out q st (snd (snd (snd (advance user_deserialize_fn outs qr w))))
     = checked_out q st w"
    by (rule no_prepare_frame(2) [OF advance_frame(1) xs])
qed

lemma advances_preserves:
  "cache_consistent q (snd (snd (advances user_deserialize_fn outs_list qr w)))
     = cache_consistent q w
   \<and> checked_out q st (snd (snd (advances user_deserialize_fn outs_list qr w)))
     = checked_out q st w
   \<and> stmt (fst (snd (advances user_deserialize_fn outs_list qr w))) = stmt qr
   \<and> put_cb (fst (snd (advances user_deserialize_fn outs_list qr w))) = put_cb qr"
proof (induction outs_list arbitrary: qr w)
  case Nil
  then show ?case by simp
next
  case (Cons outs outs_list)
  obtain r vs qr1 w1 where a: "advance user_deserialize_fn outs qr w = (r, vs, qr1, w1)"
    by (metis prod_cases4)
  have p: "cache_consistent q w1 = cache_consistent q w" "checked_out q st w1 = checked_out q st w"
    "stmt qr1 = stmt qr" "put_cb qr1 = put_cb qr"
    using advance_preserves(1) [of q user_deserialize_fn outs qr w]
      advance_preserves(2) [of q st user_deserialize_fn outs qr w]
      advance_frame(3,4) [of user_deserialize_fn outs qr w] a
    by simp_all
  show ?case
    using Cons.IH [of qr1 w1] a p by (auto simp: Let_def split: prod.splits)
qed

lemma put_tls_eq:
  "put_tls db_name query_str st w =
     (case fst (singleton_tls db_name query_str w) of
        Returns c \<Rightarrow>
          (Returns (),
           (snd (singleton_tls db_name query_str w))
             \<lparr>caches := (caches (snd (singleton_tls db_name query_str w)))
                 (query_str \<mapsto> internal_put st c)\<rparr>)
      | Throws err \<Rightarrow> (Throws err, snd (singleton_tls db_name query_str w))
      | Rejected \<Rightarrow> (Rejected, snd (singleton_tls db_name query_str w)))"
  by (simp add: put_tls_def split: prod.splits outcome.splits)

lemma put_tls_checked_out:
  assumes "checked_out query_str (Some h) w"
  shows "cache_consistent query_str (snd (put_tls db_name query_str (Some h) w))"
proof -
  from assms obtain c where c: "caches w query_str = Some c"
    by (auto simp: checked_out_def)
  let ?ps = "prepared_stmts query_str (calls (eng w))"
  from assms c have i: "((case first_free_stmt c of None \<Rightarrow> [] | Some h \<Rightarrow> [Some h])
                           @ other_free_stmts c) @ [Some h] = map Some ?ps"
    and len: "length ?ps \<le> 1"
    by (simp_all add: checked_out_def idle_stmts_def)
  from idle_singleton [OF i len] have e: "first_free_stmt c = None" "other_free_stmts c = []"
    by (auto split: option.splits)
  with i have ps: "?ps = [h]"
    by (cases ?ps) auto
  from c e ps show ?thesis
    by (simp add: put_tls_eq singleton_tls_eq internal_put_def cache_consistent_def idle_stmts_def)
qed

lemma put_tls_other:
  assumes "q \<noteq> query_str"
  shows "cache_consistent q (snd (put_tls db_name query_str st w)) = cache_consistent q w"
proof -
  have "cache_consistent q (snd (put_tls db_name query_str st w))
          = cache_consistent q (snd (singleton_tls db_name query_str w))"
    using assms
    by (simp add: put_tls_eq cache_consistent_def idle_stmts_def split: outcome.splits)
  then show ?thesis
    by (simp add: singleton_tls_consistent)
qed

lemma dtor_frame:
  "cache_consistent q (w\<lparr>eng := sqlite3_reset st (sqlite3_clear_bindings st (eng w))\<rparr>)
     = cache_consistent q w"
  "checked_out q st' (w\<lparr>eng := sqlite3_reset st (sqlite3_clear_bindings st (eng w))\<rparr>)
     = checked_out q st' w"
  by (simp_all add: cache_consistent_def checked_out_def idle_stmts_def prepared_stmts_append
      sqlite3_reset_def sqlite3_clear_bindings_def log_call_def)

lemma dtor_consistent:
  assumes "checked_out query_str (stmt qr) w" "put_cb qr = query_str"
  shows "cache_consistent query_str (snd (QueryResult_dtor db_name qr w))"
proof (cases "stmt qr")
  case None
  with assms show ?thesis
    by (simp add: QueryResult_dtor_def checked_out_def cache_consistent_def)
next
  case (Some h)
  with assms have "checked_out query_str (Some h)
      (w\<lparr>eng := sqlite3_reset (Some h) (sqlite3_clear_bindings (Some h) (eng w))\<rparr>)"
    by (simp add: dtor_frame)
  from put_tls_checked_out [OF this] Some assms show ?thesis
    by (simp add: QueryResult_dtor_def Let_def)
qed

lemma dtor_other:
  assumes "q \<noteq> put_cb qr"
  shows "cache_consistent q (snd (QueryResult_dtor db_name qr w)) = cache_consistent q w"
  using assms by (simp add: QueryResult_dtor_def Let_def put_tls_other dtor_frame)

lemma run_sequentially_returns:
  "list_all (\<lambda>inv. \<not> list_ex (\<lambda>a. user_serialize_fn reg (type_of a) \<noteq> None) (fst (snd inv))) invs
   \<Longrightarrow> run_sequentially reg user_deserialize_fn db_name invs w \<noteq> None"
proof (induction invs arbitrary: w)
  case Nil
  then show ?case by simp
next
  case (Cons inv invs)
  obtain query_str bind_args outs where inv: "inv = (query_str, bind_args, outs)"
    by (cases inv) auto
  with Cons.prems have
    q: "query reg db_name query_str bind_args w = Some (query_bound db_name query_str bind_args w)"
    by (simp add: query_no_converter)
  from Cons.prems have rest: "list_all (\<lambda>inv. \<not> list_ex (\<lambda>a. user_serialize_fn reg (type_of a) \<noteq> None) (fst (snd inv))) invs"
    by simp
  show ?case
    using Cons.IH [OF rest] inv q
    by (simp split: prod.splits outcome.splits)
qed

lemma fresh_consistent:
  "caches w = Map.empty \<Longrightarrow> calls (eng w) = [] \<Longrightarrow> cache_consistent q w"
  by (simp add: cache_consistent_def idle_stmts_def)

lemma round_Returns:
  assumes all: "\<forall>q. cache_consistent q w"
    and qb: "query_bound db_name query_str args' w = (Returns qr, w1)"
    and a: "advances user_deserialize_fn outs qr w1 = (rs, qr2, w2)"
  shows "cache_consistent q (snd (QueryResult_dtor db_name qr2 w2))"
proof -
  have c: "cache_consistent query_str w" using all by simp
  have "checked_out query_str (stmt qr) w1 \<and> put_cb qr = query_str"
    using query_bound_consistent [OF c, of db_name args'] qb by simp
  then have co: "checked_out query_str (stmt qr2) w2" and pc: "put_cb qr2 = query_str"
    using advances_preserves [of query_str user_deserialize_fn outs qr w1 "stmt qr"] a
    by simp_all
  show ?thesis
  proof (cases "q = query_str")
    case True
    with dtor_consistent [OF co pc] show ?thesis by simp
  next
    case False
    have "cache_consistent q w1"
      using query_bound_other [OF False, of db_name args' w] qb all by simp
    then have "cache_consistent q w2"
      using advances_preserves [of q user_deserialize_fn outs qr w1 None] a by simp
    with False pc show ?thesis
      by (simp add: dtor_other)
  qed
qed

lemma round_fails:
  assumes all: "\<forall>q. cache_consistent q w"
    and qb: "query_bound db_name query_str args' w = (r, w1)"
    and r: "r = Throws err \<or> r = Rejected"
  shows "cache_consistent q w1"
proof (cases "q = query_str")
  case True
  have c: "cache_consistent query_str w" using all by simp
  show ?thesis
    using query_bound_consistent [OF c, of db_name args'] qb r True by auto
next
  case False
  show ?thesis
    using query_bound_other [OF False, of db_name args' w] qb all by simp
qed

lemma run_sequentially_Cons:
  "run_sequentially reg user_deserialize_fn db_name ((query_str, bind_args, outs) # rest) w =
     (case query reg db_name query_str bind_args w of
        None \<Rightarrow> None
      | Some (r, w1) \<Rightarrow>
          (case r of
             Returns qr \<Rightarrow>
               run_sequentially reg user_deserialize_fn db_name rest
                 (snd (QueryResult_dtor db_name
                    (fst (snd (advances user_deserialize_fn outs qr w1)))
                    (snd (snd (advances user_deserialize_fn outs qr w1)))))
           | _ \<Rightarrow> run_sequentially reg user_deserialize_fn db_name rest w1))"
  by (simp split: option.splits prod.splits outcome.splits)

lemma run_sequentially_consistent:
  fixes reg :: "'u serialize_registry"
  assumes "\<forall>q. cache_consistent q w"
    and "run_sequentially reg user_deserialize_fn db_name invs w = Some w'"
  shows "cache_consistent q w'"
  using assms
proof (induction invs arbitrary: w)
  case Nil
  then show ?case by simp
next
  case (Cons inv invs)
  obtain query_str bind_args outs where inv: "inv = (query_str, bind_args, outs)"
    by (cases inv) auto
  note run = Cons.prems(2) [unfolded inv run_sequentially_Cons]
  from run obtain r w1 where
    q: "query reg db_name query_str bind_args w = Some (r, w1)"
    by (cases "query reg db_name query_str bind_args w") auto
  from query_Some [OF q] obtain args' :: "'u val list" where
    qb: "query_bound db_name query_str args' w = (r, w1)"
    by metis
  show ?case
  proof (cases r)
    case (Returns qr)
    obtain rs qr2 w2 where a: "advances user_deserialize_fn outs qr w1 = (rs, qr2, w2)"
      by (metis prod_cases3)
    have all: "\<forall>q. cache_consistent q (snd (QueryResult_dtor db_name qr2 w2))"
      using round_Returns [OF Cons.prems(1) qb [unfolded Returns] a] by blast
    from run q Returns a
    have "run_sequentially reg user_deserialize_fn db_name invs
            (snd (QueryResult_dtor db_name qr2 w2)) = Some w'"
      by simp
    from Cons.IH [OF all this] show ?thesis .
  next
    case (Throws err)
    have all: "\<forall>q. cache_consistent q w1"
      using round_fails [OF Cons.prems(1) qb] Throws by blast
    from run q Throws
    have "run_sequentially reg user_deserialize_fn db_name invs w1 = Some w'"
      by simp
    from Cons.IH [OF all this] show ?thesis .
  next
    case Rejected
    have all: "\<forall>q. cache_consistent q w1"
      using round_fails [OF Cons.prems(1) qb] Rejected by blast
    from run q Rejected
    have "run_sequentially reg user_deserialize_fn db_name invs w1 = Some w'"
      by simp
    from Cons.IH [OF all this] show ?thesis .
  qed
qed

text \<open>
  Claim C1. \<open>internal_get\<close> returns the statement in \<open>first_free_stmt\<close> and empties the
  slot; with the slot empty it removes and returns the last statement of
  \<open>other_free_stmts\<close>; in both cases the engine is not called. Only with both empty does it
  call \<open>sqlite3_prepare_v3\<close>, returning the new statement or throwing the code.
  \<open>internal_put\<close> stores into the slot if it is empty and appends to \<open>other_free_stmts\<close>
  otherwise. On a thread that starts with no cache and an empty log, after any sequence of
  invocations, each with its cursor advanced and then destroyed before the next one, at
  most one statement has been prepared from scratch for any query text, and the idle
  statements of its cache are exactly the prepared ones: none was dropped. Such a
  sequence runs to its end when no argument type has a serialize converter.
\<close>

theorem prepared_statement_cache_reuse:
  fixes reg :: "'u serialize_registry"
  shows
  "(first_free_stmt c \<noteq> None \<longrightarrow>
      internal_get query_str c e
        = (Returns (first_free_stmt c), c\<lparr>first_free_stmt := None\<rparr>, e))
   \<and> (first_free_stmt c = None \<and> other_free_stmts c \<noteq> [] \<longrightarrow>
      internal_get query_str c e
        = (Returns (last (other_free_stmts c)),
           c\<lparr>other_free_stmts := butlast (other_free_stmts c)\<rparr>, e))
   \<and> (first_free_stmt c = None \<and> other_free_stmts c = [] \<longrightarrow>
      internal_get query_str c e
        = (if fst (sqlite3_prepare_v3 (db_handle c) query_str (length query_str + 1)
                     SQLITE_PREPARE_PERSISTENT e) \<noteq> SQLITE_OK
           then Throws (Error (fst (sqlite3_prepare_v3 (db_handle c) query_str
                     (length query_str + 1) SQLITE_PREPARE_PERSISTENT e)))
           else Returns (fst (snd (sqlite3_prepare_v3 (db_handle c) query_str
                     (length query_str + 1) SQLITE_PREPARE_PERSISTENT e))),
           c,
           snd (snd (sqlite3_prepare_v3 (db_handle c) query_str (length query_str + 1)
                     SQLITE_PREPARE_PERSISTENT e))))
   \<and> (first_free_stmt c = None \<longrightarrow> internal_put st c = c\<lparr>first_free_stmt := st\<rparr>)
   \<and> (first_free_stmt c \<noteq> None \<longrightarrow>
      internal_put st c = c\<lparr>other_free_stmts := other_free_stmts c @ [st]\<rparr>)
   \<and> (caches w = Map.empty \<and> calls (eng w) = []
      \<and> run_sequentially reg user_deserialize_fn db_name invs w = Some w' \<longrightarrow>
      length (prepared_stmts q (calls (eng w'))) \<le> 1
      \<and> idle_stmts q w' = map Some (prepared_stmts q (calls (eng w'))))
   \<and> (list_all (\<lambda>inv. \<not> list_ex (\<lambda>a. user_serialize_fn reg (type_of a) \<noteq> None) (fst (snd inv)))
         invs \<longrightarrow>
      run_sequentially reg user_deserialize_fn db_name invs w \<noteq> None)"
proof (intro conjI impI)
  show "internal_get query_str c e
        = (Returns (first_free_stmt c), c\<lparr>first_free_stmt := None\<rparr>, e)"
    if "first_free_stmt c \<noteq> None"
    using that by (simp add: internal_get_def)
  show "internal_get query_str c e
        = (Returns (last (other_free_stmts c)),
           c\<lparr>other_free_stmts := butlast (other_free_stmts c)\<rparr>, e)"
    if "first_free_stmt c = None \<and> other_free_stmts c \<noteq> []"
    using that by (simp add: internal_get_def)
  show "internal_get query_str c e
        = (if fst (sqlite3_prepare_v3 (db_handle c) query_str (length query_str + 1)
                     SQLITE_PREPARE_PERSISTENT e) \<noteq> SQLITE_OK
           then Throws (Error (fst (sqlite3_prepare_v3 (db_handle c) query_str
                     (length query_str + 1) SQLITE_PREPARE_PERSISTENT e)))
           else Returns (fst (snd (sqlite3_prepare_v3 (db_handle c) query_str
                     (length query_str + 1) SQLITE_PREPARE_PERSISTENT e))),
           c,
           snd (snd (sqlite3_prepare_v3 (db_handle c) query_str (length query_str + 1)
                     SQLITE_PREPARE_PERSISTENT e)))"
    if "first_free_stmt c = None \<and> other_free_stmts c = []"
    using that by (simp add: internal_get_def Let_def split: prod.splits)
  show "internal_put st c = c\<lparr>first_free_stmt := st\<rparr>" if "first_free_stmt c = None"
    using that by (simp add: internal_put_def)
  show "internal_put st c = c\<lparr>other_free_stmts := other_free_stmts c @ [st]\<rparr>"
    if "first_free_stmt c \<noteq> None"
    using that by (auto simp: internal_put_def)
  show "run_sequentially reg user_deserialize_fn db_name invs w \<noteq> None"
    if "list_all (\<lambda>inv. \<not> list_ex (\<lambda>a. user_serialize_fn reg (type_of a) \<noteq> None) (fst (snd inv))) invs"
    using that by (rule run_sequentially_returns)
next
  assume h: "caches w = Map.empty \<and> calls (eng w) = []
      \<and> run_sequentially reg user_deserialize_fn db_name invs w = Some w'"
  then have "\<forall>q. cache_consistent q w"
    by (simp add: fresh_consistent)
  from run_sequentially_consistent [OF this, of reg user_deserialize_fn db_name invs w' q] h
  have "cache_consistent q w'" by simp
  then show "length (prepared_stmts q (calls (eng w'))) \<le> 1"
    and "idle_stmts q w' = map Some (prepared_stmts q (calls (eng w')))"
    by (simp_all add: cache_consistent_def)
qed

lemma example_run:
  "map_option (\<lambda>w. (prepared_stmts select_query (calls (eng w)), caches w select_query))
     (run_sequentially no_serializers no_deserializers ''example.db'' example_invocations
        example_world)
   = Some ([1], Some \<lparr>db_handle = Some 7, first_free_stmt = Some 1, other_free_stmts = []\<rparr>)"
  by (simp add: example_invocations_def query_no_converter advance_def QueryResult_dtor_def
      all_defs)


theorem prepared_statement_cache_reuse_witness:
  "first_free_stmt \<lparr>db_handle = Some 7, first_free_stmt = Some 1, other_free_stmts = [Some 2]\<rparr> \<noteq> None
   \<and> internal_get select_query
        \<lparr>db_handle = Some 7, first_free_stmt = Some 1, other_free_stmts = [Some 2]\<rparr>
        (scripted [] [] [])
      = (Returns (Some 1),
         \<lparr>db_handle = Some 7, first_free_stmt = None, other_free_stmts = [Some 2]\<rparr>,
         scripted [] [] [])
   \<and> internal_get select_query
        \<lparr>db_handle = Some 7, first_free_stmt = None, other_free_stmts = [Some 2, Some 3]\<rparr>
        (scripted [] [] [])
      = (Returns (Some 3),
         \<lparr>db_handle = Some 7, first_free_stmt = None, other_free_stmts = [Some 2]\<rparr>,
         scripted [] [] [])
   \<and> fst (internal_get select_query
        \<lparr>db_handle = Some 7, first_free_stmt = None, other_free_stmts = []\<rparr>
        (scripted [] [(SQLITE_OK, Some 1, 2)] [])) = Returns (Some 1)
   \<and> internal_put (Some 1) \<lparr>db_handle = Some 7, first_free_stmt = None, other_free_stmts = []\<rparr>
      = \<lparr>db_handle = Some 7, first_free_stmt = Some 1, other_free_stmts = []\<rparr>
   \<and> internal_put (Some 2) \<lparr>db_handle = Some 7, first_free_stmt = Some 1, other_free_stmts = []\<rparr>
      = \<lparr>db_handle = Some 7, first_free_stmt = Some 1, other_free_stmts = [Some 2]\<rparr>
   \<and> caches example_world = Map.empty \<and> calls (eng example_world) = []
   \<and> list_all (\<lambda>inv. \<not> list_ex (\<lambda>a. user_serialize_fn no_serializers (type_of a) \<noteq> None)
                  (fst (snd inv))) example_invocations
   \<and> run_sequentially no_serializers no_deserializers ''example.db'' example_invocations
         example_world \<noteq> None
   \<and> length (prepared_stmts select_query (calls (eng (the
         (run_sequentially no_serializers no_deserializers ''example.db'' example_invocations
            example_world))))) \<le> 1
   \<and> idle_stmts select_query (the
         (run_sequentially no_serializers no_deserializers ''example.db'' example_invocations
            example_world))
      = map Some (prepared_stmts select_query (calls (eng (the
         (run_sequentially no_serializers no_deserializers ''example.db'' example_invocations
            example_world)))))"
proof -
  let ?c1 = "\<lparr>db_handle = Some 7, first_free_stmt = Some 1, other_free_stmts = [Some 2]\<rparr>"
  let ?c2 = "\<lparr>db_handle = Some 7, first_free_stmt = None, other_free_stmts = [Some 2, Some 3]\<rparr>"
  let ?c3 = "\<lparr>db_handle = Some 7, first_free_stmt = None, other_free_stmts = []\<rparr>"
  let ?c4 = "\<lparr>db_handle = Some 7, first_free_stmt = Some 1, other_free_stmts = []\<rparr>"
  let ?run = "run_sequentially no_serializers no_deserializers ''example.db''
                example_invocations example_world"
  have f: "caches example_world = Map.empty" "calls (eng example_world) = []"
    by (simp_all add: example_defs)
  have l: "list_all (\<lambda>inv. \<not> list_ex (\<lambda>a. user_serialize_fn no_serializers (type_of a) \<noteq> None)
                  (fst (snd inv))) example_invocations"
    by (simp add: example_invocations_def no_serializers_def)
  have p: "fst (sqlite3_prepare_v3 (Some 7) select_query (length select_query + 1) 1
                 (scripted [] [(SQLITE_OK, Some 1, 2)] [])) = SQLITE_OK"
     "fst (snd (sqlite3_prepare_v3 (Some 7) select_query (length select_query + 1) 1
                 (scripted [] [(SQLITE_OK, Some 1, 2)] []))) = Some 1"
    by (simp_all add: sqlite3_prepare_v3_def scripted_def)
  note t1 = prepared_statement_cache_reuse [of ?c1 select_query "scripted [] [] []" "Some 2"
      example_world no_serializers no_deserializers "''example.db''" example_invocations
      "the ?run" select_query]
  note t2 = prepared_statement_cache_reuse [of ?c2 select_query "scripted [] [] []" "Some 2"
      example_world no_serializers no_deserializers "''example.db''" example_invocations
      "the ?run" select_query]
  note t3 = prepared_statement_cache_reuse [of ?c3 select_query
      "scripted [] [(SQLITE_OK, Some 1, 2)] []" "Some 1"
      example_world no_serializers no_deserializers "''example.db''" example_invocations
      "the ?run" select_query]
  from t1 l have r: "?run \<noteq> None" by blast
  then have s: "?run = Some (the ?run)" by simp
  from t1 f s have a: "length (prepared_stmts select_query (calls (eng (the ?run)))) \<le> 1"
    "idle_stmts select_query (the ?run)
       = map Some (prepared_stmts select_query (calls (eng (the ?run))))"
    by blast+
  have g1: "internal_get select_query ?c1 (scripted [] [] [])
      = (Returns (Some 1),
         \<lparr>db_handle = Some 7, first_free_stmt = None, other_free_stmts = [Some 2]\<rparr>,
         scripted [] [] [])"
    using t1 by simp
  have g2: "internal_get select_query ?c2 (scripted [] [] [])
      = (Returns (Some 3),
         \<lparr>db_handle = Some 7, first_free_stmt = None, other_free_stmts = [Some 2]\<rparr>,
         scripted [] [] [])"
    using t2 by simp
  have g3: "fst (internal_get select_query ?c3 (scripted [] [(SQLITE_OK, Some 1, 2)] []))
      = Returns (Some 1)"
    using t3 p by simp
  have p1: "internal_put (Some 1) ?c3 = ?c4"
    using t3 by simp
  have p2: "internal_put (Some 2) ?c4 = ?c1"
    using prepared_statement_cache_reuse [of ?c4 select_query "scripted [] [] []" "Some 2"
      example_world no_serializers no_deserializers "''example.db''" example_invocations
      "the ?run" select_query]
    by simp
  from g1 g2 g3 p1 p2 f l r a show ?thesis
    by simp
qed

subsection \<open>Ownership of the checked-out statement\<close>

text \<open>
  Claim C5, on the pattern of the tests: a cursor variable holding the cursor of a first
  query is move-assigned the cursor of a second query of the same text and destroyed at
  the end of its scope. The assignment overwrites the handle of the first statement
  without returning it: both statements were prepared, only the second is cleared, reset
  and back in the cache, and the first is not checked in; the destructor of the cache
  would finalize the second statement only.
\<close>

theorem move_assignment_drops_statement:
  "(case assign_second_query ''example.db'' select_query
           [VIntegral (ISigned 32) 1 :: unit val] [VIntegral (ISigned 32) 2] example_world of
      None \<Rightarrow> False
    | Some (s, w) \<Rightarrow>
        stmt (s 0) = Some 2 \<and> stmt (s 1) = None
        \<and> caches w select_query
            = Some \<lparr>db_handle = Some 7, first_free_stmt = Some 2, other_free_stmts = []\<rparr>
        \<and> prepared_stmts select_query (calls (eng w)) = [1, 2]
        \<and> map_option (\<lambda>c. calls (PreparedStmtCache_dtor c (scripted [] [] [])))
              (caches w select_query)
            = Some [Finalize (Some 2)]
        \<and> calls (eng w)
            = [Config_Multithread, Config_Log, Open ''example.db'' 0 (Some 7),
               Busy_Handler (Some 7),
               Prepare (Some 7) select_query 35 1 0 (Some 1),
               Bind_Int64 (Some 1) 1 1, Step (Some 1),
               Prepare (Some 7) select_query 35 1 0 (Some 2),
               Bind_Int64 (Some 2) 1 2, Step (Some 2),
               Clear_Bindings (Some 2), Reset (Some 2)])"
  by (simp add: assign_second_query_def move_assign_def QueryResult_dtor_def
      QueryResult_default_def PreparedStmtCache_dtor_def sqlite3_finalize_def all_defs)

subsection \<open>Serialize converters\<close>

lemma user_serialize_fn_optional:
  "user_serialize_fn reg t = Some (rt, f) \<Longrightarrow>
   maybe_serialize reg (VNone t) = VNone rt
   \<and> (type_of a = t \<longrightarrow> maybe_serialize reg (VSome a) = VSome (f a))"
  by (auto simp: maybe_serialize_def)

text \<open>
  Claim C8. When the type of some argument has a serialize converter, \<open>query\<close> is the
  same call on the arguments with \<open>maybe_serialize\<close> applied to each: the list keeps its
  length, the argument at a position whose type has a converter is replaced by the
  converter's result, and every other argument is unchanged; when no converted argument
  has a converter any more, the converted arguments are the ones bound. The converter of
  \<open>std::optional<T>\<close> exists exactly when \<open>T\<close> has one: it maps the empty optional to the
  empty optional of the converted type and an optional holding \<open>a\<close> to the optional
  holding the converted \<open>a\<close>.
\<close>

theorem serialize_converter_dispatch:
  fixes reg :: "'u serialize_registry"
  shows
  "(list_ex (\<lambda>a. user_serialize_fn reg (type_of a) \<noteq> None) bind_args \<longrightarrow>
      query reg db_name query_str bind_args w
        = query reg db_name query_str (map (maybe_serialize reg) bind_args) w)
   \<and> (list_ex (\<lambda>a. user_serialize_fn reg (type_of a) \<noteq> None) bind_args
      \<and> \<not> list_ex (\<lambda>a. user_serialize_fn reg (type_of a) \<noteq> None)
            (map (maybe_serialize reg) bind_args) \<longrightarrow>
      query reg db_name query_str bind_args w
        = Some (query_bound db_name query_str (map (maybe_serialize reg) bind_args) w))
   \<and> length (map (maybe_serialize reg) bind_args) = length bind_args
   \<and> (i < length bind_args \<and> user_serialize_fn reg (type_of (bind_args ! i)) = Some (rt, f) \<longrightarrow>
      map (maybe_serialize reg) bind_args ! i = f (bind_args ! i))
   \<and> (i < length bind_args \<and> user_serialize_fn reg (type_of (bind_args ! i)) = None \<longrightarrow>
      map (maybe_serialize reg) bind_args ! i = bind_args ! i)
   \<and> (user_serialize_fn reg t = Some (rt, f) \<longrightarrow>
      maybe_serialize reg (VNone t) = VNone rt
      \<and> (type_of a = t \<longrightarrow> maybe_serialize reg (VSome a) = VSome (f a)))
   \<and> (user_serialize_fn reg t = None \<longrightarrow>
      maybe_serialize reg (VNone t) = VNone t
      \<and> (type_of a = t \<longrightarrow> maybe_serialize reg (VSome a) = VSome a))"
proof (intro conjI impI)
  assume h: "list_ex (\<lambda>a. user_serialize_fn reg (type_of a) \<noteq> None) bind_args"
  then show "query reg db_name query_str bind_args w
        = query reg db_name query_str (map (maybe_serialize reg) bind_args) w"
    by (subst query.simps) simp
next
  assume h: "list_ex (\<lambda>a. user_serialize_fn reg (type_of a) \<noteq> None) bind_args
      \<and> \<not> list_ex (\<lambda>a. user_serialize_fn reg (type_of a) \<noteq> None)
            (map (maybe_serialize reg) bind_args)"
  then have "query reg db_name query_str bind_args w
        = query reg db_name query_str (map (maybe_serialize reg) bind_args) w"
    by (subst query.simps) simp
  also have "\<dots> = Some (query_bound db_name query_str (map (maybe_serialize reg) bind_args) w)"
    using h by (simp add: query_no_converter)
  finally show "query reg db_name query_str bind_args w
        = Some (query_bound db_name query_str (map (maybe_serialize reg) bind_args) w)" .
next
  show "length (map (maybe_serialize reg) bind_args) = length bind_args" by simp
next
  assume "i < length bind_args \<and> user_serialize_fn reg (type_of (bind_args ! i)) = Some (rt, f)"
  then show "map (maybe_serialize reg) bind_args ! i = f (bind_args ! i)"
    by (simp add: maybe_serialize_def)
next
  assume "i < length bind_args \<and> user_serialize_fn reg (type_of (bind_args ! i)) = None"
  then show "map (maybe_serialize reg) bind_args ! i = bind_args ! i"
    by (simp add: maybe_serialize_def)
next
  assume h: "user_serialize_fn reg t = Some (rt, f)"
  from user_serialize_fn_optional [OF h, of a]
  show "maybe_serialize reg (VNone t) = VNone rt" by simp
  assume "type_of a = t"
  with user_serialize_fn_optional [OF h, of a]
  show "maybe_serialize reg (VSome a) = VSome (f a)" by simp
next
  assume h: "user_serialize_fn reg t = None"
  then show "maybe_serialize reg (VNone t) = VNone t"
    by (simp add: maybe_serialize_def)
  assume "type_of a = t"
  with h show "maybe_serialize reg (VSome a) = VSome a"
    by (simp add: maybe_serialize_def)
qed


theorem serialize_converter_dispatch_witness:
  "list_ex (\<lambda>a. user_serialize_fn string_wrapper_serializers (type_of a) \<noteq> None)
     string_wrapper_args
   \<and> \<not> list_ex (\<lambda>a. user_serialize_fn string_wrapper_serializers (type_of a) \<noteq> None)
         (map (maybe_serialize string_wrapper_serializers) string_wrapper_args)
   \<and> query string_wrapper_serializers ''example.db'' select_query string_wrapper_args
         example_world
       = Some (query_bound ''example.db'' select_query
                 ([VIntegral (ISigned 32) 1, VString ''hello'', VSome (VString ''x''),
                   VNone TString] :: string val list) example_world)
   \<and> (1::nat) < length string_wrapper_args
   \<and> user_serialize_fn string_wrapper_serializers (type_of (string_wrapper_args ! 1))
       = Some (TString, string_wrapper_to_string)
   \<and> map (maybe_serialize string_wrapper_serializers) string_wrapper_args ! 1 = VString ''hello''
   \<and> (0::nat) < length string_wrapper_args
   \<and> user_serialize_fn string_wrapper_serializers (type_of (string_wrapper_args ! 0)) = None
   \<and> map (maybe_serialize string_wrapper_serializers) string_wrapper_args ! 0
       = VIntegral (ISigned 32) 1
   \<and> type_of (VUser ''string_wrapper'' ''x'' :: string val) = TUser ''string_wrapper''
   \<and> maybe_serialize string_wrapper_serializers (VNone (TUser ''string_wrapper''))
       = VNone TString
   \<and> maybe_serialize string_wrapper_serializers (VSome (VUser ''string_wrapper'' ''x''))
       = VSome (VString ''x'')
   \<and> user_serialize_fn string_wrapper_serializers TCString = None
   \<and> type_of (VCString ''M'' :: string val) = TCString
   \<and> maybe_serialize string_wrapper_serializers (VSome (VCString ''M''))
       = VSome (VCString ''M'')"
proof -
  let ?reg = string_wrapper_serializers
  let ?args = string_wrapper_args
  have m: "map (maybe_serialize ?reg) ?args
      = [VIntegral (ISigned 32) 1, VString ''hello'', VSome (VString ''x''), VNone TString]"
    by (simp add: string_wrapper_args_def string_wrapper_serializers_def maybe_serialize_def
        string_wrapper_to_string_def)
  have h1: "list_ex (\<lambda>a. user_serialize_fn ?reg (type_of a) \<noteq> None) ?args"
    by (simp add: string_wrapper_args_def string_wrapper_serializers_def)
  have h2: "\<not> list_ex (\<lambda>a. user_serialize_fn ?reg (type_of a) \<noteq> None)
              (map (maybe_serialize ?reg) ?args)"
    by (simp add: m)
  have i1: "(1::nat) < length ?args"
    "user_serialize_fn ?reg (type_of (?args ! 1)) = Some (TString, string_wrapper_to_string)"
    by (simp_all add: string_wrapper_args_def string_wrapper_serializers_def)
  have i0: "(0::nat) < length ?args" "user_serialize_fn ?reg (type_of (?args ! 0)) = None"
    by (simp_all add: string_wrapper_args_def string_wrapper_serializers_def)
  have u: "user_serialize_fn ?reg (TUser ''string_wrapper'') = Some (TString, string_wrapper_to_string)"
    "type_of (VUser ''string_wrapper'' ''x'' :: string val) = TUser ''string_wrapper''"
    "user_serialize_fn ?reg TCString = None"
    "type_of (VCString ''M'' :: string val) = TCString"
    by (simp_all add: string_wrapper_serializers_def)
  have v: "string_wrapper_to_string (?args ! 1) = VString ''hello''"
    "string_wrapper_to_string (VUser ''string_wrapper'' ''x'') = VString ''x''"
    "?args ! 0 = VIntegral (ISigned 32) 1"
    by (simp_all add: string_wrapper_args_def string_wrapper_to_string_def)
  note t1 = serialize_converter_dispatch [of ?reg ?args "''example.db''" select_query
      example_world 1 TString string_wrapper_to_string "TUser ''string_wrapper''"
      "VUser ''string_wrapper'' ''x''"]
  note t0 = serialize_converter_dispatch [of ?reg ?args "''example.db''" select_query
      example_world 0 TString string_wrapper_to_string TCString "VCString ''M''"]
  from t1 h1 h2 have q: "query ?reg ''example.db'' select_query ?args example_world
       = Some (query_bound ''example.db'' select_query (map (maybe_serialize ?reg) ?args)
                 example_world)"
    by blast
  from t1 i1 have a1: "map (maybe_serialize ?reg) ?args ! 1 = string_wrapper_to_string (?args ! 1)"
    by blast
  from t0 i0 have a0: "map (maybe_serialize ?reg) ?args ! 0 = ?args ! 0"
    by blast
  from t1 u have o1: "maybe_serialize ?reg (VNone (TUser ''string_wrapper'')) = VNone TString"
    "maybe_serialize ?reg (VSome (VUser ''string_wrapper'' ''x''))
       = VSome (string_wrapper_to_string (VUser ''string_wrapper'' ''x''))"
    by blast+
  from t0 u have o0: "maybe_serialize ?reg (VSome (VCString ''M'')) = VSome (VCString ''M'')"
    by blast
  have c3: "query ?reg ''example.db'' select_query ?args example_world
       = Some (query_bound ''example.db'' select_query
                 ([VIntegral (ISigned 32) 1, VString ''hello'', VSome (VString ''x''),
                   VNone TString] :: string val list) example_world)"
    using q unfolding m .
  have c6: "map (maybe_serialize ?reg) ?args ! 1 = VString ''hello''"
    by (simp only: a1 v(1))
  have c9: "map (maybe_serialize ?reg) ?args ! 0 = VIntegral (ISigned 32) 1"
    by (simp only: a0 v(3))
  have c12: "maybe_serialize ?reg (VSome (VUser ''string_wrapper'' ''x'')) = VSome (VString ''x'')"
    by (simp only: o1(2) v(2))
  show ?thesis
    using h1 h2 c3 i1 c6 i0 c9 u(2) o1(1) c12 u(3) u(4) o0 by blast
qed

subsection \<open>Which return codes are thrown\<close>

lemma Connection_ctor_open_fails:
  assumes "fst (sqlite3_open db_name (eng w)) \<noteq> SQLITE_OK"
  shows "fst (Connection_ctor db_name w) = Throws (Error (fst (sqlite3_open db_name (eng w))))"
    and "calls (eng (snd (Connection_ctor db_name w)))
           = calls (eng w)
             @ (if sqlite3_configured w then [] else [Config_Multithread, Config_Log])
             @ [Open db_name (fst (sqlite3_open db_name (eng w)))
                  (fst (snd (sqlite3_open db_name (eng w))))]"
  using assms
  by (auto simp: Connection_ctor_def sqlite3_open_def sqlite3_config_log_def
      sqlite3_config_multithread_def log_call_def Let_def split: list.splits)

lemma Connection_ctor_Throws:
  assumes "fst (Connection_ctor db_name w) = Throws err"
  shows "err_code err \<noteq> SQLITE_OK \<and> calls (eng (snd (Connection_ctor db_name w))) \<noteq> []
         \<and> answered (last (calls (eng (snd (Connection_ctor db_name w))))) = Some (err_code err)"
  using assms
  by (auto simp: Connection_ctor_def sqlite3_open_def sqlite3_config_log_def
      sqlite3_config_multithread_def sqlite3_busy_handler_def log_call_def Let_def
      split: list.splits if_splits)

lemma singleton_tls_Throws_code:
  assumes "fst (singleton_tls db_name query_str w) = Throws err"
  shows "err_code err \<noteq> SQLITE_OK \<and> calls (eng (snd (singleton_tls db_name query_str w))) \<noteq> []
         \<and> answered (last (calls (eng (snd (singleton_tls db_name query_str w)))))
             = Some (err_code err)"
  using assms Connection_ctor_Throws [of db_name w err]
  by (auto simp: singleton_tls_eq connection_tls_eq split: option.splits outcome.splits)

lemma internal_get_Throws_code:
  assumes "fst (internal_get query_str c e) = Throws err"
  shows "err_code err \<noteq> SQLITE_OK \<and> calls (snd (snd (internal_get query_str c e))) \<noteq> []
         \<and> answered (last (calls (snd (snd (internal_get query_str c e))))) = Some (err_code err)"
  using assms
  by (auto simp: internal_get_def sqlite3_prepare_v3_def log_call_def Let_def
      split: list.splits if_splits prod.splits)

lemma get_tls_Throws_code:
  assumes "fst (get_tls db_name query_str w) = Throws err"
  shows "err_code err \<noteq> SQLITE_OK \<and> calls (eng (snd (get_tls db_name query_str w))) \<noteq> []
         \<and> answered (last (calls (eng (snd (get_tls db_name query_str w))))) = Some (err_code err)"
proof (cases "fst (singleton_tls db_name query_str w)")
  case (Returns c)
  with assms have "fst (internal_get query_str c (eng (snd (singleton_tls db_name query_str w))))
                     = Throws err"
    by (simp add: get_tls_eq)
  from internal_get_Throws_code [OF this] Returns show ?thesis
    by (simp add: get_tls_eq)
next
  case (Throws err')
  with assms have "err' = err" by (simp add: get_tls_eq)
  with Throws singleton_tls_Throws_code [of db_name query_str w err] show ?thesis
    by (simp add: get_tls_eq)
next
  case Rejected
  with assms show ?thesis by (simp add: get_tls_eq)
qed

lemma sqlite3_step_fst_calls: "fst (sqlite3_step st (e\<lparr>calls := cs\<rparr>)) = fst (sqlite3_step st e)"
  by (simp add: sqlite3_step_def split: list.splits)

lemma query_bound_Returns_code:
  assumes b: "list_all (\<lambda>a. bindable (type_of a)) bind_args"
    and g: "fst (get_tls db_name query_str w) = Returns st"
  shows "fst (query_bound db_name query_str bind_args w)
           = Returns \<lparr>stmt = st, put_cb = query_str,
                      ret = fst (sqlite3_step st (eng (snd (get_tls db_name query_str w)))),
                      first_invocation = True\<rparr>"
proof -
  define bs where "bs = map2 (spec_bind_call st) [1 ..< 1 + length bind_args] bind_args"
  have "fold (bind_dispatcher st) bind_args (1, eng (snd (get_tls db_name query_str w)))
          = (1 + length bind_args,
             (eng (snd (get_tls db_name query_str w)))
               \<lparr>calls := calls (eng (snd (get_tls db_name query_str w))) @ bs\<rparr>)"
    unfolding bs_def by (rule fold_bind_dispatcher [OF b])
  then have f: "snd (fold (bind_dispatcher st) bind_args
                   (Suc 0, eng (snd (get_tls db_name query_str w))))
      = (eng (snd (get_tls db_name query_str w)))
               \<lparr>calls := calls (eng (snd (get_tls db_name query_str w))) @ bs\<rparr>"
    by simp
  show ?thesis
    using b g by (simp add: query_bound_eq QueryResult_ctor_eq f sqlite3_step_fst_calls)
qed


text \<open>
  Claim C9. On a thread without a connection, a query whose \<open>sqlite3_open\<close> answers a
  code other than \<open>SQLITE_OK\<close> throws \<open>error\<close> with that code, after exactly one open. A
  query that finds its cache empty and whose \<open>sqlite3_prepare_v3\<close> answers a code other
  than \<open>SQLITE_OK\<close> throws \<open>error\<close> with that code, after exactly one prepare. Whatever a
  query throws is the code, other than \<open>SQLITE_OK\<close>, that its last engine call, an open or
  a prepare, answered. Once the statement is checked out the query returns a cursor that
  holds whatever code the step answered, and an advance that passes the column-count
  guard returns true or false, with \<open>resultCode\<close> the retained code or the code of the step
  it made.
\<close>

theorem error_surface:
  "(connection w = None \<and> caches w query_str = None
      \<and> list_all (\<lambda>a. bindable (type_of a)) bind_args
      \<and> fst (sqlite3_open db_name (eng w)) \<noteq> SQLITE_OK \<longrightarrow>
      fst (query_bound db_name query_str bind_args w)
        = Throws (Error (fst (sqlite3_open db_name (eng w))))
      \<and> calls (eng (snd (query_bound db_name query_str bind_args w)))
        = calls (eng w)
          @ (if sqlite3_configured w then [] else [Config_Multithread, Config_Log])
          @ [Open db_name (fst (sqlite3_open db_name (eng w)))
               (fst (snd (sqlite3_open db_name (eng w))))])
   \<and> (list_all (\<lambda>a. bindable (type_of a)) bind_args
      \<and> fst (singleton_tls db_name query_str w) = Returns c
      \<and> first_free_stmt c = None \<and> other_free_stmts c = []
      \<and> fst (sqlite3_prepare_v3 (db_handle c) query_str (length query_str + 1)
                SQLITE_PREPARE_PERSISTENT (eng (snd (singleton_tls db_name query_str w))))
          \<noteq> SQLITE_OK \<longrightarrow>
      fst (query_bound db_name query_str bind_args w)
        = Throws (Error (fst (sqlite3_prepare_v3 (db_handle c) query_str (length query_str + 1)
                SQLITE_PREPARE_PERSISTENT (eng (snd (singleton_tls db_name query_str w))))))
      \<and> calls (eng (snd (query_bound db_name query_str bind_args w)))
        = calls (eng (snd (singleton_tls db_name query_str w)))
          @ [Prepare (db_handle c) query_str (length query_str + 1) SQLITE_PREPARE_PERSISTENT
               (fst (sqlite3_prepare_v3 (db_handle c) query_str (length query_str + 1)
                  SQLITE_PREPARE_PERSISTENT (eng (snd (singleton_tls db_name query_str w)))))
               (fst (snd (sqlite3_prepare_v3 (db_handle c) query_str (length query_str + 1)
                  SQLITE_PREPARE_PERSISTENT (eng (snd (singleton_tls db_name query_str w))))))])
   \<and> (query_bound db_name query_str bind_args w = (Throws err, w') \<longrightarrow>
      err_code err \<noteq> SQLITE_OK \<and> calls (eng w') \<noteq> []
      \<and> answered (last (calls (eng w'))) = Some (err_code err))
   \<and> (list_all (\<lambda>a. bindable (type_of a)) bind_args
      \<and> fst (get_tls db_name query_str w) = Returns st \<longrightarrow>
      fst (query_bound db_name query_str bind_args w)
        = Returns \<lparr>stmt = st, put_cb = query_str,
                   ret = fst (sqlite3_step st (eng (snd (get_tls db_name query_str w)))),
                   first_invocation = True\<rparr>)
   \<and> (length outs \<le> sqlite3_column_count (eng w) (stmt qr) \<longrightarrow>
      resultCode (fst (snd (snd (advance user_deserialize_fn outs qr w))))
        = (if first_invocation qr then ret qr else fst (sqlite3_step (stmt qr) (eng w)))
      \<and> fst (advance user_deserialize_fn outs qr w)
        = Returns (resultCode (fst (snd (snd (advance user_deserialize_fn outs qr w))))
                     = SQLITE_ROW))"
proof (intro conjI impI)
  assume h: "connection w = None \<and> caches w query_str = None
      \<and> list_all (\<lambda>a. bindable (type_of a)) bind_args
      \<and> fst (sqlite3_open db_name (eng w)) \<noteq> SQLITE_OK"
  then have o: "fst (sqlite3_open db_name (eng w)) \<noteq> SQLITE_OK" by simp
  note c = Connection_ctor_open_fails [OF o]
  from h c(1) have g: "get_tls db_name query_str w
      = (Throws (Error (fst (sqlite3_open db_name (eng w)))), snd (Connection_ctor db_name w))"
    by (simp add: get_tls_eq singleton_tls_eq connection_tls_eq)
  from h g show "fst (query_bound db_name query_str bind_args w)
        = Throws (Error (fst (sqlite3_open db_name (eng w))))"
    by (simp add: query_bound_eq)
  from h g c(2) show "calls (eng (snd (query_bound db_name query_str bind_args w)))
        = calls (eng w)
          @ (if sqlite3_configured w then [] else [Config_Multithread, Config_Log])
          @ [Open db_name (fst (sqlite3_open db_name (eng w)))
               (fst (snd (sqlite3_open db_name (eng w))))]"
    by (simp add: query_bound_eq)
next
  let ?e = "eng (snd (singleton_tls db_name query_str w))"
  let ?p = "sqlite3_prepare_v3 (db_handle c) query_str (length query_str + 1)
                SQLITE_PREPARE_PERSISTENT ?e"
  assume h: "list_all (\<lambda>a. bindable (type_of a)) bind_args
      \<and> fst (singleton_tls db_name query_str w) = Returns c
      \<and> first_free_stmt c = None \<and> other_free_stmts c = []
      \<and> fst ?p \<noteq> SQLITE_OK"
  then have i: "internal_get query_str c ?e = (Throws (Error (fst ?p)), c, snd (snd ?p))"
    by (auto simp: internal_get_def Let_def split: prod.splits)
  have l: "calls (snd (snd ?p)) = calls ?e
      @ [Prepare (db_handle c) query_str (length query_str + 1) SQLITE_PREPARE_PERSISTENT
           (fst ?p) (fst (snd ?p))]"
    by (simp add: sqlite3_prepare_v3_def log_call_def split: list.splits)
  from h i show "fst (query_bound db_name query_str bind_args w) = Throws (Error (fst ?p))"
    by (simp add: query_bound_eq get_tls_eq)
  from h i l show "calls (eng (snd (query_bound db_name query_str bind_args w)))
        = calls ?e
          @ [Prepare (db_handle c) query_str (length query_str + 1) SQLITE_PREPARE_PERSISTENT
               (fst ?p) (fst (snd ?p))]"
    by (simp add: query_bound_eq get_tls_eq)
next
  assume h: "query_bound db_name query_str bind_args w = (Throws err, w')"
  then have g: "fst (get_tls db_name query_str w) = Throws err"
    and w': "w' = snd (get_tls db_name query_str w)"
    by (auto simp: query_bound_eq split: if_splits outcome.splits)
  from get_tls_Throws_code [OF g] w'
  show "err_code err \<noteq> SQLITE_OK" and "calls (eng w') \<noteq> []"
    and "answered (last (calls (eng w'))) = Some (err_code err)"
    by simp_all
next
  assume "list_all (\<lambda>a. bindable (type_of a)) bind_args
      \<and> fst (get_tls db_name query_str w) = Returns st"
  then show "fst (query_bound db_name query_str bind_args w)
        = Returns \<lparr>stmt = st, put_cb = query_str,
                   ret = fst (sqlite3_step st (eng (snd (get_tls db_name query_str w)))),
                   first_invocation = True\<rparr>"
    by (simp add: query_bound_Returns_code)
next
  assume h: "length outs \<le> sqlite3_column_count (eng w) (stmt qr)"
  then show "resultCode (fst (snd (snd (advance user_deserialize_fn outs qr w))))
        = (if first_invocation qr then ret qr else fst (sqlite3_step (stmt qr) (eng w)))"
    by (auto simp: advance_def resultCode_def Let_def split: prod.splits)
  from h show "fst (advance user_deserialize_fn outs qr w)
        = Returns (resultCode (fst (snd (snd (advance user_deserialize_fn outs qr w))))
                     = SQLITE_ROW)"
    by (auto simp: advance_def resultCode_def Let_def split: prod.splits)
qed


lemmas failure_defs = open_fails_world_def prepare_fails_world_def constraint_world_def
  insert_query_def insert_args_def

theorem error_surface_witness:
  "connection open_fails_world = None \<and> caches open_fails_world insert_query = None
   \<and> list_all (\<lambda>a. bindable (type_of a)) insert_args
   \<and> fst (sqlite3_open ''example.db'' (eng open_fails_world)) \<noteq> SQLITE_OK
   \<and> fst (query_bound ''example.db'' insert_query insert_args open_fails_world)
       = Throws (Error SQLITE_CANTOPEN)
   \<and> calls (eng (snd (query_bound ''example.db'' insert_query insert_args open_fails_world)))
       = [Config_Multithread, Config_Log, Open ''example.db'' SQLITE_CANTOPEN None]
   \<and> fst (singleton_tls ''example.db'' insert_query prepare_fails_world)
       = Returns \<lparr>db_handle = Some 7, first_free_stmt = None, other_free_stmts = []\<rparr>
   \<and> query_bound ''example.db'' insert_query insert_args prepare_fails_world
       = (Throws (Error SQLITE_ERROR),
          snd (query_bound ''example.db'' insert_query insert_args prepare_fails_world))
   \<and> answered (last (calls (eng (snd (query_bound ''example.db'' insert_query insert_args
                 prepare_fails_world)))))
       = Some SQLITE_ERROR
   \<and> fst (get_tls ''example.db'' insert_query constraint_world) = Returns (Some 1)
   \<and> fst (query_bound ''example.db'' insert_query insert_args constraint_world)
       = Returns \<lparr>stmt = Some 1, put_cb = insert_query, ret = 19, first_invocation = True\<rparr>
   \<and> length ([] :: (out_ty \<times> unit val) list)
       \<le> sqlite3_column_count
            (eng (snd (query_bound ''example.db'' insert_query insert_args constraint_world)))
            (Some 1)
   \<and> fst (advance no_deserializers []
            \<lparr>stmt = Some 1, put_cb = insert_query, ret = 19, first_invocation = True\<rparr>
            (snd (query_bound ''example.db'' insert_query insert_args constraint_world)))
       = Returns False
   \<and> resultCode (fst (snd (snd (advance no_deserializers []
            \<lparr>stmt = Some 1, put_cb = insert_query, ret = 19, first_invocation = True\<rparr>
            (snd (query_bound ''example.db'' insert_query insert_args constraint_world))))))
       = 19"
proof -
  let ?c = "\<lparr>db_handle = Some 7, first_free_stmt = None, other_free_stmts = []\<rparr>"
  let ?qr = "\<lparr>stmt = Some 1, put_cb = insert_query, ret = 19, first_invocation = True\<rparr>"
  let ?wp = "snd (query_bound ''example.db'' insert_query insert_args prepare_fails_world)"
  let ?wc = "snd (query_bound ''example.db'' insert_query insert_args constraint_world)"
  have a: "connection open_fails_world = None" "caches open_fails_world insert_query = None"
    "sqlite3_configured open_fails_world = False"
    by (simp_all add: failure_defs example_defs)
  have b: "list_all (\<lambda>a. bindable (type_of a)) insert_args"
    by (simp add: insert_args_def)
  have o: "sqlite3_open ''example.db'' (eng open_fails_world)
      = (SQLITE_CANTOPEN, None, snd (snd (sqlite3_open ''example.db'' (eng open_fails_world))))"
    by (simp add: failure_defs example_defs sqlite3_open_def)
  then have o': "fst (sqlite3_open ''example.db'' (eng open_fails_world)) \<noteq> SQLITE_OK"
    "fst (sqlite3_open ''example.db'' (eng open_fails_world)) = SQLITE_CANTOPEN"
    "fst (snd (sqlite3_open ''example.db'' (eng open_fails_world))) = None"
    "calls (eng open_fails_world) = []"
    by (simp_all add: failure_defs example_defs sqlite3_open_def)
  note t1 = error_surface [of open_fails_world insert_query insert_args "''example.db''"
      ?c "Error SQLITE_ERROR" ?wp "Some 1" "[]" ?qr no_deserializers]
  from t1 a(1,2) b o'(1)
  have c1: "fst (query_bound ''example.db'' insert_query insert_args open_fails_world)
        = Throws (Error (fst (sqlite3_open ''example.db'' (eng open_fails_world))))"
    and c2: "calls (eng (snd (query_bound ''example.db'' insert_query insert_args open_fails_world)))
        = calls (eng open_fails_world)
          @ (if sqlite3_configured open_fails_world then [] else [Config_Multithread, Config_Log])
          @ [Open ''example.db'' (fst (sqlite3_open ''example.db'' (eng open_fails_world)))
               (fst (snd (sqlite3_open ''example.db'' (eng open_fails_world))))]"
    by blast+
  have s: "fst (singleton_tls ''example.db'' insert_query prepare_fails_world) = Returns ?c"
    by (simp add: failure_defs example_defs cache_defs engine_defs Let_def)
  have p: "fst (sqlite3_prepare_v3 (db_handle ?c) insert_query (length insert_query + 1)
              SQLITE_PREPARE_PERSISTENT
              (eng (snd (singleton_tls ''example.db'' insert_query prepare_fails_world))))
            = SQLITE_ERROR"
    by (simp add: failure_defs example_defs cache_defs engine_defs Let_def)
  note t2 = error_surface [of prepare_fails_world insert_query insert_args "''example.db''"
      ?c "Error SQLITE_ERROR" ?wp "Some 1" "[]" ?qr no_deserializers]
  from t2 b s p
  have c3: "fst (query_bound ''example.db'' insert_query insert_args prepare_fails_world)
        = Throws (Error SQLITE_ERROR)"
    by simp
  then have c4: "query_bound ''example.db'' insert_query insert_args prepare_fails_world
        = (Throws (Error SQLITE_ERROR), ?wp)"
    by (simp add: prod_eq_iff)
  from t2 c4 have c5: "answered (last (calls (eng ?wp))) = Some (err_code (Error SQLITE_ERROR))"
    by blast
  have g: "fst (get_tls ''example.db'' insert_query constraint_world) = Returns (Some 1)"
    "fst (sqlite3_step (Some 1) (eng (snd (get_tls ''example.db'' insert_query constraint_world))))
       = 19"
    by (simp_all add: failure_defs example_defs cache_defs engine_defs Let_def)
  note t3 = error_surface [of constraint_world insert_query insert_args "''example.db''"
      ?c "Error SQLITE_ERROR" ?wp "Some 1" "[]" ?qr no_deserializers]
  from t3 b g(1)
  have "fst (query_bound ''example.db'' insert_query insert_args constraint_world)
        = Returns \<lparr>stmt = Some 1, put_cb = insert_query,
                   ret = fst (sqlite3_step (Some 1)
                     (eng (snd (get_tls ''example.db'' insert_query constraint_world)))),
                   first_invocation = True\<rparr>"
    by blast
  then have c6: "fst (query_bound ''example.db'' insert_query insert_args constraint_world)
        = Returns ?qr"
    by (simp only: g(2))
  have l: "length ([] :: (out_ty \<times> unit val) list) \<le> sqlite3_column_count (eng ?wc) (stmt ?qr)"
    by simp
  note t4 = error_surface [of ?wc insert_query insert_args "''example.db''"
      ?c "Error SQLITE_ERROR" ?wp "Some 1" "[]" ?qr no_deserializers]
  from t4 l
  have c7: "resultCode (fst (snd (snd (advance no_deserializers [] ?qr ?wc))))
        = (if first_invocation ?qr then ret ?qr else fst (sqlite3_step (stmt ?qr) (eng ?wc)))"
    and c8: "fst (advance no_deserializers [] ?qr ?wc)
        = Returns (resultCode (fst (snd (snd (advance no_deserializers [] ?qr ?wc))))
                     = SQLITE_ROW)"
    by blast+
  from c7 have c7': "resultCode (fst (snd (snd (advance no_deserializers [] ?qr ?wc)))) = 19"
    by simp
  from c8 c7' have c8': "fst (advance no_deserializers [] ?qr ?wc) = Returns False"
    by simp
  from c1 o'(2) have c1': "fst (query_bound ''example.db'' insert_query insert_args open_fails_world)
       = Throws (Error SQLITE_CANTOPEN)"
    by simp
  from c2 o' a(3) have c2': "calls (eng (snd (query_bound ''example.db'' insert_query insert_args open_fails_world)))
       = [Config_Multithread, Config_Log, Open ''example.db'' SQLITE_CANTOPEN None]"
    by simp
  from c5 have c5': "answered (last (calls (eng ?wp))) = Some SQLITE_ERROR"
    by simp
  from l have l': "length ([] :: (out_ty \<times> unit val) list) \<le> sqlite3_column_count (eng ?wc) (Some 1)"
    by simp
  show ?thesis
    using a(1,2) b o'(1) c1' c2' s c4 c5' g(1) c6 l' c8' c7' by blast
qed

end
